theory Spec2Isabelle
  imports Complex_Main
begin

section \<open>Python values used by the frame extractor\<close>

text \<open>
  The exceptions that \<open>extract_frames\<close> and \<open>extract_by_time_intervals\<close> can raise:
  those of their arithmetic, and those of \<open>os.makedirs\<close> (\<open>FileNotFoundError\<close> for
  the empty path, \<open>OSError\<close> for any other refusal of the file system).
\<close>

datatype error = ZeroDivisionError | OverflowError | ValueError | FileNotFoundError | OSError

text \<open>
  A Python float is a finite value, an infinity or a NaN. Finite values are carried as
  rationals (every double is one; both zeros are \<open>Fin 0\<close>). Comparison, truthiness and
  \<open>int()\<close> are exact on doubles. Division and multiplication round: their exact result
  goes through a rounding function \<open>rnd\<close> that the environment supplies (round to
  nearest double, overflowing to an infinity) and about which nothing is assumed.
\<close>

datatype pyfloat = Fin rat | PInf | NInf | NaN

fun fl_truthy :: "pyfloat \<Rightarrow> bool" where
  "fl_truthy (Fin q) = (q \<noteq> 0)"
| "fl_truthy PInf = True"
| "fl_truthy NInf = True"
| "fl_truthy NaN = True"

fun fl_less :: "pyfloat \<Rightarrow> pyfloat \<Rightarrow> bool" where
  "fl_less NaN y = False"
| "fl_less x NaN = False"
| "fl_less (Fin a) (Fin b) = (a < b)"
| "fl_less (Fin a) PInf = True"
| "fl_less (Fin a) NInf = False"
| "fl_less PInf y = False"
| "fl_less NInf NInf = False"
| "fl_less NInf y = True"

fun fl_le :: "pyfloat \<Rightarrow> pyfloat \<Rightarrow> bool" where
  "fl_le NaN y = False"
| "fl_le x NaN = False"
| "fl_le x y = (\<not> fl_less y x)"

fun signed_inf :: "bool \<Rightarrow> pyfloat" where
  "signed_inf True = PInf"
| "signed_inf False = NInf"

fun fl_quot :: "(rat \<Rightarrow> pyfloat) \<Rightarrow> pyfloat \<Rightarrow> pyfloat \<Rightarrow> pyfloat" where
  "fl_quot rnd NaN y = NaN"
| "fl_quot rnd x NaN = NaN"
| "fl_quot rnd (Fin a) (Fin b) = rnd (a / b)"
| "fl_quot rnd (Fin a) y = Fin 0"
| "fl_quot rnd PInf (Fin b) = signed_inf (0 < b)"
| "fl_quot rnd NInf (Fin b) = signed_inf (b < 0)"
| "fl_quot rnd x y = NaN"

definition fl_div :: "(rat \<Rightarrow> pyfloat) \<Rightarrow> pyfloat \<Rightarrow> pyfloat \<Rightarrow> error + pyfloat" where
  "fl_div rnd x y = (if y = Fin 0 then Inl ZeroDivisionError else Inr (fl_quot rnd x y))"

fun fl_mul :: "(rat \<Rightarrow> pyfloat) \<Rightarrow> pyfloat \<Rightarrow> pyfloat \<Rightarrow> pyfloat" where
  "fl_mul rnd NaN y = NaN"
| "fl_mul rnd x NaN = NaN"
| "fl_mul rnd (Fin a) (Fin b) = rnd (a * b)"
| "fl_mul rnd (Fin a) PInf = (if a = 0 then NaN else signed_inf (0 < a))"
| "fl_mul rnd (Fin a) NInf = (if a = 0 then NaN else signed_inf (a < 0))"
| "fl_mul rnd PInf (Fin b) = (if b = 0 then NaN else signed_inf (0 < b))"
| "fl_mul rnd NInf (Fin b) = (if b = 0 then NaN else signed_inf (b < 0))"
| "fl_mul rnd PInf PInf = PInf"
| "fl_mul rnd PInf NInf = NInf"
| "fl_mul rnd NInf PInf = NInf"
| "fl_mul rnd NInf NInf = PInf"

text \<open>\<open>int(x)\<close> truncates toward zero and raises on an infinity or a NaN.\<close>

fun py_int :: "pyfloat \<Rightarrow> error + int" where
  "py_int (Fin q) = Inr (if 0 \<le> q then \<lfloor>q\<rfloor> else \<lceil>q\<rceil>)"
| "py_int PInf = Inl OverflowError"
| "py_int NInf = Inl OverflowError"
| "py_int NaN = Inl ValueError"

subsection \<open>The format specification \<open>06d\<close> and \<open>os.path.join\<close>\<close>

definition digit_char :: "nat \<Rightarrow> char" where
  "digit_char n = ''0123456789'' ! (n mod 10)"

fun dec_digits :: "nat \<Rightarrow> string" where
  "dec_digits n = (if n < 10 then [digit_char n] else dec_digits (n div 10) @ [digit_char n])"

declare dec_digits.simps [simp del]

text \<open>
  \<open>format(i, '06d')\<close>: the decimal digits, padded with zeros after the sign to a width
  of six characters; longer numbers are not cut.
\<close>

definition format_06d :: "int \<Rightarrow> string" where
  "format_06d i =
     (if i < 0
      then CHR ''-'' # replicate (5 - length (dec_digits (nat (- i)))) CHR ''0'' @ dec_digits (nat (- i))
      else replicate (6 - length (dec_digits (nat i))) CHR ''0'' @ dec_digits (nat i))"

text \<open>\<open>f"frame_{saved_count:06d}.jpg"\<close>\<close>

definition frame_filename :: "int \<Rightarrow> string" where
  "frame_filename saved_count = ''frame_'' @ format_06d saved_count @ ''.jpg''"

text \<open>\<open>os.path.join(a, b)\<close> of \<open>posixpath\<close>, for two components.\<close>

definition path_join :: "string \<Rightarrow> string \<Rightarrow> string" where
  "path_join a b =
     (if b \<noteq> [] \<and> hd b = CHR ''/'' then b
      else if a = [] \<or> last a = CHR ''/'' then a @ b
      else a @ ''/'' @ b)"

section \<open>The environment: file system and video decoder\<close>

text \<open>
  An opened \<open>cv2.VideoCapture\<close>: the frame rate it reports, the frame count, width and
  height after \<open>int()\<close> (OpenCV reports finite numbers for these), and the frames that
  successive calls of \<open>read()\<close> deliver before the first one with \<open>ret = False\<close>. The
  reported frame count is container metadata and need not be the number of frames that
  can be read.
\<close>

record 'fr capture =
  cap_fps :: pyfloat
  cap_frame_count :: int
  cap_width :: int
  cap_height :: int
  cap_frames :: "'fr list"

text \<open>
  \<open>fs_exists\<close> says which paths the file system has when the call starts;
  \<open>video_capture p\<close> is \<open>None\<close> when \<open>cv2.VideoCapture(p).isOpened()\<close> is false;
  \<open>fl_round\<close> is the rounding of float arithmetic;
  \<open>makedirs_error p\<close> is the exception with which the file system refuses to create
  the directory \<open>p\<close>, if it does.
\<close>

record 'fr env =
  fs_exists :: "string \<Rightarrow> bool"
  video_capture :: "string \<Rightarrow> 'fr capture option"
  fl_round :: "rat \<Rightarrow> pyfloat"
  makedirs_error :: "string \<Rightarrow> error option"

text \<open>\<open>os.path.exists(p)\<close>: false for the empty path, which names nothing.\<close>

definition path_exists :: "'fr env \<Rightarrow> string \<Rightarrow> bool" where
  "path_exists E p = (p \<noteq> [] \<and> fs_exists E p)"

text \<open>
  \<open>os.makedirs(p)\<close>: \<open>None\<close> when the directory is created, the exception otherwise.
  The empty path always raises \<open>FileNotFoundError\<close>.
\<close>

definition os_makedirs :: "'fr env \<Rightarrow> string \<Rightarrow> error option" where
  "os_makedirs E p = (if p = [] then Some FileNotFoundError else makedirs_error E p)"

text \<open>
  What a call does: the lines it prints (one constructor per \<open>print\<close> statement or
  group of them, with the values formatted into it), the directories it creates, the calls
  of \<open>cv2.imwrite\<close> in order (path, frame, and the value given for
  \<open>IMWRITE_JPEG_QUALITY\<close>), and the value returned or the exception raised. The progress
  bar is not part of the model.
\<close>

datatype message =
    MsgVideoMissing string
  | MsgQualityWarning
  | MsgCannotOpen
  | MsgVideoInfo int int pyfloat int
  | MsgDuration pyfloat
  | MsgFormat int
  | MsgSettings int int
  | MsgDone int string

datatype 'fr imwrite = Imwrite (w_path: string) (w_frame: 'fr) (w_quality: int)

record 'fr outcome =
  returned :: "error + bool"
  printed :: "message list"
  made_dirs :: "string list"
  written :: "'fr imwrite list"

section \<open>extract_frames\<close>

text \<open>Lines 29 to 31: the quality that is used, and the warning printed.\<close>

definition check_quality :: "int \<Rightarrow> int \<times> message list" where
  "check_quality jpg_quality =
     (if jpg_quality < 1 \<or> jpg_quality > 100 then (95, [MsgQualityWarning])
      else (jpg_quality, []))"

text \<open>Line 59, right-hand side: \<open>max(1, int(original_fps / target_fps))\<close>.\<close>

definition fps_interval :: "(rat \<Rightarrow> pyfloat) \<Rightarrow> pyfloat \<Rightarrow> pyfloat \<Rightarrow> error + int" where
  "fps_interval rnd original_fps target_fps =
     (case fl_div rnd original_fps target_fps of
        Inl e \<Rightarrow> Inl e
      | Inr r \<Rightarrow> (case py_int r of Inl e \<Rightarrow> Inl e | Inr n \<Rightarrow> Inr (max 1 n)))"

text \<open>Lines 58 and 59: the frame interval after the target frame rate is looked at.\<close>

definition effective_interval ::
  "(rat \<Rightarrow> pyfloat) \<Rightarrow> pyfloat \<Rightarrow> pyfloat option \<Rightarrow> int \<Rightarrow> error + int" where
  "effective_interval rnd original_fps target_fps frame_interval =
     (case target_fps of
        None \<Rightarrow> Inr frame_interval
      | Some t \<Rightarrow>
          if fl_truthy t \<and> fl_less t original_fps
          then fps_interval rnd original_fps t
          else Inr frame_interval)"

text \<open>
  Lines 61 to 63. \<open>if max_frames\<close> is Python truthiness: \<open>None\<close> and \<open>0\<close> are false.
\<close>

definition estimated_frames :: "int \<Rightarrow> int \<Rightarrow> int option \<Rightarrow> int" where
  "estimated_frames total_frames frame_interval max_frames =
     (case max_frames of
        None \<Rightarrow> total_frames div frame_interval
      | Some m \<Rightarrow> if m \<noteq> 0 then min (total_frames div frame_interval) m
                  else total_frames div frame_interval)"

text \<open>The loop of lines 78 to 95 and its local variables.\<close>

record 'fr loop_state =
  frame_count :: int
  saved_count :: int
  writes :: "'fr imwrite list"

datatype 'a control = Break | Raise error | Continue 'a

text \<open>\<open>max_frames and saved_count >= max_frames\<close>\<close>

fun cap_reached :: "int option \<Rightarrow> int \<Rightarrow> bool" where
  "cap_reached None n = False"
| "cap_reached (Some m) n = (m \<noteq> 0 \<and> n \<ge> m)"

text \<open>One pass through the loop body after \<open>cap.read()\<close> has delivered the frame \<open>f\<close>.\<close>

definition loop_body ::
  "string \<Rightarrow> int \<Rightarrow> int option \<Rightarrow> int \<Rightarrow> 'fr \<Rightarrow> 'fr loop_state \<Rightarrow> 'fr loop_state control" where
  "loop_body output_dir frame_interval max_frames jpg_quality f s =
     (if cap_reached max_frames (saved_count s) then Break
      else if frame_interval = 0 then Raise ZeroDivisionError
      else if frame_count s mod frame_interval = 0
      then Continue \<lparr>frame_count = frame_count s + 1,
                     saved_count = saved_count s + 1,
                     writes = writes s @
                       [Imwrite (path_join output_dir (frame_filename (saved_count s))) f jpg_quality]\<rparr>
      else Continue \<lparr>frame_count = frame_count s + 1,
                     saved_count = saved_count s,
                     writes = writes s\<rparr>)"

text \<open>The loop over the frames that the decoder delivers; it ends when they run out.\<close>

fun frame_loop ::
  "string \<Rightarrow> int \<Rightarrow> int option \<Rightarrow> int \<Rightarrow> 'fr list \<Rightarrow> 'fr loop_state
     \<Rightarrow> (error \<times> 'fr loop_state) + 'fr loop_state" where
  "frame_loop d k m q [] s = Inr s"
| "frame_loop d k m q (f # fs) s =
     (case loop_body d k m q f s of
        Break \<Rightarrow> Inr s
      | Raise e \<Rightarrow> Inl (e, s)
      | Continue s' \<Rightarrow> frame_loop d k m q fs s')"

text \<open>The states of the local variables at the head of the loop, in order.\<close>

fun loop_states ::
  "string \<Rightarrow> int \<Rightarrow> int option \<Rightarrow> int \<Rightarrow> 'fr list \<Rightarrow> 'fr loop_state \<Rightarrow> 'fr loop_state list" where
  "loop_states d k m q [] s = [s]"
| "loop_states d k m q (f # fs) s =
     s # (case loop_body d k m q f s of
            Break \<Rightarrow> []
          | Raise e \<Rightarrow> []
          | Continue s' \<Rightarrow> loop_states d k m q fs s')"

definition initial_state :: "'fr loop_state" where
  "initial_state = \<lparr>frame_count = 0, saved_count = 0, writes = []\<rparr>"

text \<open>Lines 44 to 103: what happens once the capture is open.\<close>

definition extract_opened ::
  "'fr env \<Rightarrow> 'fr capture \<Rightarrow> string \<Rightarrow> int \<Rightarrow> pyfloat option \<Rightarrow> int option \<Rightarrow> int
     \<Rightarrow> message list \<Rightarrow> string list \<Rightarrow> 'fr outcome" where
  "extract_opened E cap output_dir frame_interval target_fps max_frames jpg_quality out dirs =
     (let original_fps = cap_fps cap;
          total_frames = cap_frame_count cap;
          out1 = out @ [MsgVideoInfo (cap_width cap) (cap_height cap) original_fps total_frames]
      in case fl_div (fl_round E) (Fin (of_int total_frames)) original_fps of
           Inl e \<Rightarrow> \<lparr>returned = Inl e, printed = out1, made_dirs = dirs, written = []\<rparr>
         | Inr duration \<Rightarrow>
             (let out2 = out1 @ [MsgDuration duration, MsgFormat jpg_quality]
              in case effective_interval (fl_round E) original_fps target_fps frame_interval of
                   Inl e \<Rightarrow> \<lparr>returned = Inl e, printed = out2, made_dirs = dirs, written = []\<rparr>
                 | Inr k \<Rightarrow>
                     if k = 0
                     then \<lparr>returned = Inl ZeroDivisionError, printed = out2,
                           made_dirs = dirs, written = []\<rparr>
                     else
                       (let out3 = out2 @ [MsgSettings k (estimated_frames total_frames k max_frames)]
                        in case frame_loop output_dir k max_frames jpg_quality
                                  (cap_frames cap) initial_state of
                             Inl (e, s) \<Rightarrow>
                               \<lparr>returned = Inl e, printed = out3, made_dirs = dirs,
                                written = writes s\<rparr>
                           | Inr s \<Rightarrow>
                               \<lparr>returned = Inr True,
                                printed = out3 @ [MsgDone (saved_count s) output_dir],
                                made_dirs = dirs, written = writes s\<rparr>)))"

text \<open>Lines 37 to 103: opening the video, after the output directory is there.\<close>

definition extract_in_dir ::
  "'fr env \<Rightarrow> string \<Rightarrow> string \<Rightarrow> int \<Rightarrow> pyfloat option \<Rightarrow> int option \<Rightarrow> int
     \<Rightarrow> message list \<Rightarrow> string list \<Rightarrow> 'fr outcome" where
  "extract_in_dir E video_path output_dir frame_interval target_fps max_frames jpg_quality out dirs =
     (case video_capture E video_path of
        None \<Rightarrow> \<lparr>returned = Inr False, printed = out @ [MsgCannotOpen],
                  made_dirs = dirs, written = []\<rparr>
      | Some cap \<Rightarrow>
          extract_opened E cap output_dir frame_interval target_fps max_frames jpg_quality out dirs)"

text \<open>
  Lines 24 to 35, then the rest. The output directory is created when it does not exist;
  an exception of \<open>os.makedirs\<close> ends the call before the video is opened.
\<close>

definition extract_frames ::
  "'fr env \<Rightarrow> string \<Rightarrow> string \<Rightarrow> int \<Rightarrow> pyfloat option \<Rightarrow> int option \<Rightarrow> int \<Rightarrow> 'fr outcome" where
  "extract_frames E video_path output_dir frame_interval target_fps max_frames jpg_quality =
     (if \<not> path_exists E video_path
      then \<lparr>returned = Inr False, printed = [MsgVideoMissing video_path],
            made_dirs = [], written = []\<rparr>
      else
        (let q = fst (check_quality jpg_quality);
             out = snd (check_quality jpg_quality)
         in if \<not> path_exists E output_dir
            then (case os_makedirs E output_dir of
                    Some e \<Rightarrow> \<lparr>returned = Inl e, printed = out, made_dirs = [], written = []\<rparr>
                  | None \<Rightarrow>
                      extract_in_dir E video_path output_dir frame_interval target_fps max_frames
                        q out [output_dir])
            else extract_in_dir E video_path output_dir frame_interval target_fps max_frames
                   q out []))"

section \<open>extract_by_time_intervals\<close>

text \<open>
  The interval in seconds is a Python number; an integer argument is converted to a float
  by the multiplication, so it is taken as a float here.
\<close>

definition extract_by_time_intervals ::
  "'fr env \<Rightarrow> string \<Rightarrow> string \<Rightarrow> pyfloat \<Rightarrow> int \<Rightarrow> 'fr outcome" where
  "extract_by_time_intervals E video_path output_dir interval_seconds jpg_quality =
     (case video_capture E video_path of
        None \<Rightarrow> \<lparr>returned = Inr False, printed = [MsgCannotOpen], made_dirs = [], written = []\<rparr>
      | Some cap \<Rightarrow>
          (case py_int (fl_mul (fl_round E) (cap_fps cap) interval_seconds) of
             Inl e \<Rightarrow> \<lparr>returned = Inl e, printed = [], made_dirs = [], written = []\<rparr>
           | Inr n \<Rightarrow> extract_frames E video_path output_dir (max 1 n) None None jpg_quality))"

section \<open>Notions used to state the properties\<close>

text \<open>
  The frames of a list whose position, counted from \<open>c\<close>, is a multiple of \<open>k\<close>:
  the frames that the test of line 84 lets through.
\<close>

fun selected :: "int \<Rightarrow> int \<Rightarrow> 'a list \<Rightarrow> 'a list" where
  "selected k c [] = []"
| "selected k c (f # fs) =
     (if c mod k = 0 then f # selected k (c + 1) fs else selected k (c + 1) fs)"

text \<open>
  What a limit \<open>m\<close> leaves of a list of candidates when \<open>n\<close> frames are saved already.
\<close>

fun capped :: "int option \<Rightarrow> int \<Rightarrow> 'a list \<Rightarrow> 'a list" where
  "capped None n xs = xs"
| "capped (Some m) n xs = (if m = 0 then xs else take (nat (m - n)) xs)"

text \<open>Writing a list of frames under consecutive numbers, starting at \<open>n\<close>.\<close>

fun numbered_writes :: "string \<Rightarrow> int \<Rightarrow> int \<Rightarrow> 'fr list \<Rightarrow> 'fr imwrite list" where
  "numbered_writes d q n [] = []"
| "numbered_writes d q n (f # fs) =
     Imwrite (path_join d (frame_filename n)) f q # numbered_writes d q (n + 1) fs"

text \<open>Reading a decimal numeral back, to tell file names apart.\<close>

definition digit_val :: "char \<Rightarrow> nat" where
  "digit_val c = of_char c - 48"

definition decimal_value :: "string \<Rightarrow> nat" where
  "decimal_value s = foldl (\<lambda>a c. 10 * a + digit_val c) 0 s"

text \<open>
  The output directory exists already, or \<open>os.makedirs\<close> creates it.
\<close>

definition dir_ready :: "'fr env \<Rightarrow> string \<Rightarrow> bool" where
  "dir_ready E d = (path_exists E d \<or> os_makedirs E d = None)"

text \<open>The frames of a list whose position is a multiple of \<open>k\<close>, in order.\<close>

definition at_multiples :: "int \<Rightarrow> 'a list \<Rightarrow> 'a list" where
  "at_multiples k fs = map snd (filter (\<lambda>p. int (fst p) mod k = 0) (enumerate 0 fs))"

text \<open>
  A small environment for concrete runs: the file \<open>v.avi\<close> exists and opens, the file
  \<open>broken.avi\<close> exists and does not open, no other path exists, every directory with
  a name can be created, the frames are numbered from zero, and float arithmetic is exact
  on the values used.
\<close>

definition sample_capture :: "nat \<Rightarrow> pyfloat \<Rightarrow> int \<Rightarrow> nat capture" where
  "sample_capture n fps cnt =
     \<lparr>cap_fps = fps, cap_frame_count = cnt, cap_width = 640, cap_height = 480,
      cap_frames = [0..<n]\<rparr>"

definition sample_env :: "nat capture \<Rightarrow> nat env" where
  "sample_env c =
     \<lparr>fs_exists = (\<lambda>p. p = ''v.avi'' \<or> p = ''broken.avi''),
      video_capture = (\<lambda>p. if p = ''v.avi'' then Some c else None),
      fl_round = Fin,
      makedirs_error = (\<lambda>p. None)\<rparr>"

section \<open>The loop\<close>

lemma capped_Nil: "capped m n [] = []"
  by (cases m) auto

lemma capped_reached: "cap_reached m n \<Longrightarrow> capped m n xs = []"
  by (cases m) auto

lemma capped_Cons: "\<not> cap_reached m n \<Longrightarrow> capped m n (x # xs) = x # capped m (n + 1) xs"
proof (cases m)
  case None
  then show ?thesis by simp
next
  case (Some mx)
  assume nr: "\<not> cap_reached m n"
  show ?thesis
  proof (cases "mx = 0")
    case True
    with Some show ?thesis by simp
  next
    case False
    with nr Some have "n < mx" by simp
    then have "nat (mx - n) = Suc (nat (mx - (n + 1)))" by simp
    with Some False show ?thesis by simp
  qed
qed

lemma frame_loop_writes:
  assumes "k \<noteq> 0"
  shows "\<exists>s'. frame_loop d k m q fs s = Inr s' \<and>
           saved_count s' = saved_count s + int (length (capped m (saved_count s) (selected k (frame_count s) fs))) \<and>
           writes s' = writes s @ numbered_writes d q (saved_count s) (capped m (saved_count s) (selected k (frame_count s) fs))"
proof (induction fs arbitrary: s)
  case Nil
  then show ?case by (simp add: capped_Nil)
next
  case (Cons f fs)
  show ?case
  proof (cases "cap_reached m (saved_count s)")
    case True
    then show ?thesis by (simp add: loop_body_def capped_reached)
  next
    case nr: False
    show ?thesis
    proof (cases "frame_count s mod k = 0")
      case True
      let ?s' = "\<lparr>frame_count = frame_count s + 1, saved_count = saved_count s + 1,
                  writes = writes s @ [Imwrite (path_join d (frame_filename (saved_count s))) f q]\<rparr>"
      from Cons.IH[of ?s'] obtain s'' where
        "frame_loop d k m q fs ?s' = Inr s''"
        "saved_count s'' = saved_count ?s' + int (length (capped m (saved_count ?s') (selected k (frame_count ?s') fs)))"
        "writes s'' = writes ?s' @ numbered_writes d q (saved_count ?s') (capped m (saved_count ?s') (selected k (frame_count ?s') fs))"
        by blast
      with nr True assms show ?thesis
        by (simp add: loop_body_def capped_Cons)
    next
      case False
      let ?s' = "\<lparr>frame_count = frame_count s + 1, saved_count = saved_count s, writes = writes s\<rparr>"
      from Cons.IH[of ?s'] obtain s'' where
        "frame_loop d k m q fs ?s' = Inr s''"
        "saved_count s'' = saved_count ?s' + int (length (capped m (saved_count ?s') (selected k (frame_count ?s') fs)))"
        "writes s'' = writes ?s' @ numbered_writes d q (saved_count ?s') (capped m (saved_count ?s') (selected k (frame_count ?s') fs))"
        by blast
      with nr False assms show ?thesis
        by (simp add: loop_body_def)
    qed
  qed
qed

lemma length_numbered_writes: "length (numbered_writes d q n xs) = length xs"
  by (induction xs arbitrary: n) auto

lemma frames_numbered_writes: "map w_frame (numbered_writes d q n xs) = xs"
  by (induction xs arbitrary: n) auto

lemma quality_numbered_writes: "w \<in> set (numbered_writes d q n xs) \<Longrightarrow> w_quality w = q"
  by (induction xs arbitrary: n) auto

lemma paths_numbered_writes:
  "map w_path (numbered_writes d q n xs) =
     map (\<lambda>i. path_join d (frame_filename (n + int i))) [0..<length xs]"
proof (induction xs arbitrary: n)
  case Nil
  then show ?case by simp
next
  case (Cons x xs)
  have "map (\<lambda>i. path_join d (frame_filename (n + int i))) [0..<length (x # xs)] =
        path_join d (frame_filename n) # map (\<lambda>i. path_join d (frame_filename (n + int (Suc i)))) [0..<length xs]"
    by (simp add: upt_conv_Cons map_Suc_upt[symmetric] del: upt_Suc)
  with Cons.IH[of "n + 1"] show ?case
    by (simp add: algebra_simps)
qed

section \<open>The outcome of a call\<close>

lemma extract_opened_run:
  assumes "cap_fps cap \<noteq> Fin 0"
      and "effective_interval (fl_round E) (cap_fps cap) t k0 = Inr k"
      and "k \<noteq> 0"
  shows "returned (extract_opened E cap d k0 t m q out dirs) = Inr True"
    and "written (extract_opened E cap d k0 t m q out dirs) =
           numbered_writes d q 0 (capped m 0 (selected k 0 (cap_frames cap)))"
    and "made_dirs (extract_opened E cap d k0 t m q out dirs) = dirs"
proof -
  obtain s' where s':
    "frame_loop d k m q (cap_frames cap) initial_state = Inr s'"
    "writes s' = numbered_writes d q 0 (capped m 0 (selected k 0 (cap_frames cap)))"
    using frame_loop_writes[OF assms(3), of d m q "cap_frames cap" initial_state]
    by (auto simp: initial_state_def)
  show "returned (extract_opened E cap d k0 t m q out dirs) = Inr True"
    using assms s' by (simp add: extract_opened_def fl_div_def Let_def)
  show "written (extract_opened E cap d k0 t m q out dirs) =
           numbered_writes d q 0 (capped m 0 (selected k 0 (cap_frames cap)))"
    using assms s' by (simp add: extract_opened_def fl_div_def Let_def)
  show "made_dirs (extract_opened E cap d k0 t m q out dirs) = dirs"
    using assms s' by (simp add: extract_opened_def fl_div_def Let_def)
qed

lemma extract_opened_fps_zero:
  assumes "cap_fps cap = Fin 0"
  shows "returned (extract_opened E cap d k0 t m q out dirs) = Inl ZeroDivisionError"
    and "written (extract_opened E cap d k0 t m q out dirs) = []"
  using assms by (simp_all add: extract_opened_def fl_div_def Let_def)

lemma extract_opened_interval_error:
  assumes "effective_interval (fl_round E) (cap_fps cap) t k0 = Inl e"
  shows "\<exists>e'. returned (extract_opened E cap d k0 t m q out dirs) = Inl e'"
    and "written (extract_opened E cap d k0 t m q out dirs) = []"
  using assms by (simp_all add: extract_opened_def fl_div_def Let_def)

lemma extract_opened_interval_raises:
  assumes "cap_fps cap \<noteq> Fin 0"
      and "effective_interval (fl_round E) (cap_fps cap) t k0 = Inl e"
  shows "returned (extract_opened E cap d k0 t m q out dirs) = Inl e"
  using assms by (simp add: extract_opened_def fl_div_def Let_def)

lemma extract_opened_interval_zero:
  assumes "effective_interval (fl_round E) (cap_fps cap) t k0 = Inr 0"
  shows "returned (extract_opened E cap d k0 t m q out dirs) = Inl ZeroDivisionError"
    and "written (extract_opened E cap d k0 t m q out dirs) = []"
  using assms by (simp_all add: extract_opened_def fl_div_def Let_def)

lemma extract_opened_shape:
  "\<exists>xs. written (extract_opened E cap d k0 t m q out dirs) = numbered_writes d q 0 xs"
proof (cases "cap_fps cap = Fin 0")
  case True
  then have "written (extract_opened E cap d k0 t m q out dirs) = numbered_writes d q 0 []"
    by (simp add: extract_opened_fps_zero)
  then show ?thesis by blast
next
  case fps: False
  show ?thesis
  proof (cases "effective_interval (fl_round E) (cap_fps cap) t k0")
    case (Inl e)
    then have "written (extract_opened E cap d k0 t m q out dirs) = numbered_writes d q 0 []"
      by (simp add: extract_opened_interval_error)
    then show ?thesis by blast
  next
    case (Inr k)
    show ?thesis
    proof (cases "k = 0")
      case True
      with Inr have "written (extract_opened E cap d k0 t m q out dirs) = numbered_writes d q 0 []"
        by (simp add: extract_opened_interval_zero)
      then show ?thesis by blast
    next
      case False
      from extract_opened_run(2)[OF fps Inr False] show ?thesis by blast
    qed
  qed
qed

lemma extract_opened_not_False:
  "returned (extract_opened E cap d k0 t m q out dirs) \<noteq> Inr False"
proof (cases "cap_fps cap = Fin 0")
  case True
  then show ?thesis by (simp add: extract_opened_fps_zero)
next
  case fps: False
  show ?thesis
  proof (cases "effective_interval (fl_round E) (cap_fps cap) t k0")
    case (Inl e)
    from extract_opened_interval_error(1)[OF this, of d m q out dirs] show ?thesis by auto
  next
    case (Inr k)
    show ?thesis
    proof (cases "k = 0")
      case True
      with Inr show ?thesis by (simp add: extract_opened_interval_zero)
    next
      case False
      from extract_opened_run(1)[OF fps Inr False] show ?thesis by simp
    qed
  qed
qed

lemma extract_frames_missing:
  assumes "\<not> path_exists E v"
  shows "extract_frames E v d k0 t m q =
           \<lparr>returned = Inr False, printed = [MsgVideoMissing v], made_dirs = [], written = []\<rparr>"
  using assms by (simp add: extract_frames_def)

lemma extract_frames_no_dir:
  assumes "path_exists E v" and "\<not> path_exists E d" and "os_makedirs E d = Some e"
  shows "extract_frames E v d k0 t m q =
           \<lparr>returned = Inl e, printed = snd (check_quality q), made_dirs = [], written = []\<rparr>"
  using assms by (simp add: extract_frames_def Let_def)

lemma not_dir_ready:
  assumes "\<not> dir_ready E d"
  obtains e where "\<not> path_exists E d" and "os_makedirs E d = Some e"
  using assms by (auto simp: dir_ready_def)

lemma empty_output_dir_raises:
  assumes "path_exists E v"
  shows "returned (extract_frames E v [] k0 t m q) = Inl FileNotFoundError \<and>
         written (extract_frames E v [] k0 t m q) = []"
proof -
  have "\<not> path_exists E []" by (simp add: path_exists_def)
  moreover have "os_makedirs E [] = Some FileNotFoundError" by (simp add: os_makedirs_def)
  ultimately show ?thesis using assms by (simp add: extract_frames_no_dir)
qed

lemma extract_frames_in_dir:
  assumes "path_exists E v" and "dir_ready E d"
  shows "extract_frames E v d k0 t m q =
           extract_in_dir E v d k0 t m (fst (check_quality q)) (snd (check_quality q))
             (if \<not> path_exists E d then [d] else [])"
  using assms by (auto simp: extract_frames_def Let_def dir_ready_def)

lemma extract_frames_unopened:
  assumes "path_exists E v" and "video_capture E v = None" and "dir_ready E d"
  shows "extract_frames E v d k0 t m q =
           \<lparr>returned = Inr False, printed = snd (check_quality q) @ [MsgCannotOpen],
            made_dirs = (if \<not> path_exists E d then [d] else []), written = []\<rparr>"
  unfolding extract_frames_in_dir[OF assms(1,3)] using assms(2)
  by (simp add: extract_in_dir_def)

lemma extract_frames_opened:
  assumes "path_exists E v" and "video_capture E v = Some cap" and "dir_ready E d"
  shows "extract_frames E v d k0 t m q =
           extract_opened E cap d k0 t m (fst (check_quality q)) (snd (check_quality q))
             (if \<not> path_exists E d then [d] else [])"
  unfolding extract_frames_in_dir[OF assms(1,3)] using assms(2)
  by (simp add: extract_in_dir_def)

lemma extract_frames_shape:
  "\<exists>xs. written (extract_frames E v d k0 t m q) = numbered_writes d (fst (check_quality q)) 0 xs"
proof (cases "path_exists E v")
  case False
  then have "written (extract_frames E v d k0 t m q) = numbered_writes d (fst (check_quality q)) 0 []"
    by (simp add: extract_frames_missing)
  then show ?thesis by blast
next
  case ex: True
  show ?thesis
  proof (cases "dir_ready E d")
    case False
    then obtain e where "\<not> path_exists E d" and "os_makedirs E d = Some e"
      by (rule not_dir_ready)
    with ex have "written (extract_frames E v d k0 t m q) = numbered_writes d (fst (check_quality q)) 0 []"
      by (simp add: extract_frames_no_dir)
    then show ?thesis by blast
  next
    case dr: True
    show ?thesis
    proof (cases "video_capture E v")
      case None
      with ex dr have "written (extract_frames E v d k0 t m q) = numbered_writes d (fst (check_quality q)) 0 []"
        by (simp add: extract_frames_unopened)
      then show ?thesis by blast
    next
      case (Some cap)
      show ?thesis
        unfolding extract_frames_opened[OF ex Some dr] by (rule extract_opened_shape)
    qed
  qed
qed

lemma check_quality_range: "1 \<le> fst (check_quality q) \<and> fst (check_quality q) \<le> 100"
  by (simp add: check_quality_def)

section \<open>Counting the selected frames\<close>

lemma ceil_step:
  fixes c k :: int
  assumes "0 < k"
  shows "(c + 1 + k - 1) div k - (c + k - 1) div k = (if c mod k = 0 then 1 else 0)"
proof -
  define j where "j = c div k"
  define r where "r = c mod k"
  have c: "c = k * j + r" by (simp add: j_def r_def)
  have r: "0 \<le> r" "r < k" using assms by (simp_all add: r_def)
  have a: "(c + 1 + k - 1) div k = j + 1"
  proof (rule int_div_pos_eq)
    show "c + 1 + k - 1 = k * (j + 1) + r" using c by (simp add: algebra_simps)
  qed (use r in auto)
  show ?thesis
  proof (cases "r = 0")
    case True
    have "(c + k - 1) div k = j"
    proof (rule int_div_pos_eq)
      show "c + k - 1 = k * j + (k - 1)" using c True by simp
    qed (use assms in auto)
    with a True show ?thesis by (simp add: r_def)
  next
    case False
    have "(c + k - 1) div k = j + 1"
    proof (rule int_div_pos_eq)
      show "c + k - 1 = k * (j + 1) + (r - 1)" using c by (simp add: algebra_simps)
    qed (use r False in auto)
    with a False show ?thesis by (simp add: r_def)
  qed
qed

lemma length_selected_from:
  assumes "0 < k"
  shows "int (length (selected k c fs)) = (c + int (length fs) + k - 1) div k - (c + k - 1) div k"
proof (induction fs arbitrary: c)
  case Nil
  then show ?case by simp
next
  case (Cons f fs)
  define A where "A = (c + int (length (f # fs)) + k - 1) div k"
  define B where "B = (c + 1 + k - 1) div k"
  define C where "C = (c + k - 1) div k"
  have "c + 1 + int (length fs) + k - 1 = c + int (length (f # fs)) + k - 1"
    by simp
  then have "int (length (selected k (c + 1) fs)) = A - B"
    unfolding A_def B_def using Cons.IH[of "c + 1"] by metis
  moreover have "B - C = (if c mod k = 0 then 1 else 0)"
    unfolding B_def C_def by (rule ceil_step[OF assms])
  moreover have "int (length (selected k c (f # fs))) =
      int (length (selected k (c + 1) fs)) + (if c mod k = 0 then 1 else 0)"
    by simp
  ultimately have "int (length (selected k c (f # fs))) = A - C"
    by linarith
  then show ?case unfolding A_def C_def .
qed

lemma ceiling_quotient:
  fixes n k :: int
  assumes "0 < k"
  shows "\<lceil>(of_int n :: rat) / of_int k\<rceil> = (n + k - 1) div k"
proof -
  define j where "j = n div k"
  define r where "r = n mod k"
  have n: "n = k * j + r" by (simp add: j_def r_def)
  have r: "0 \<le> r" "r < k" using assms by (simp_all add: r_def)
  have "\<lceil>(of_int n :: rat) / of_int k\<rceil> = - (- n div k)"
    by (rule ceiling_divide_eq_div)
  also have "\<dots> = (n + k - 1) div k"
  proof (cases "r = 0")
    case True
    have "(n + k - 1) div k = j"
    proof (rule int_div_pos_eq)
      show "n + k - 1 = k * j + (k - 1)" using n True by simp
    qed (use assms in auto)
    moreover have "- n div k = - j"
    proof (rule int_div_pos_eq)
      show "- n = k * (- j) + 0" using n True by simp
    qed (use assms in auto)
    ultimately show ?thesis by simp
  next
    case False
    have "(n + k - 1) div k = j + 1"
    proof (rule int_div_pos_eq)
      show "n + k - 1 = k * (j + 1) + (r - 1)" using n by (simp add: algebra_simps)
    qed (use r False in auto)
    moreover have "- n div k = - j - 1"
    proof (rule int_div_pos_eq)
      show "- n = k * (- j - 1) + (k - r)" using n by (simp add: algebra_simps)
    qed (use r False in auto)
    ultimately show ?thesis by simp
  qed
  finally show ?thesis .
qed

lemma length_selected:
  assumes "0 < k"
  shows "int (length (selected k 0 fs)) = \<lceil>(of_nat (length fs) :: rat) / of_int k\<rceil>"
proof -
  have "(k - 1) div k = 0" using assms by simp
  then have "int (length (selected k 0 fs)) = (int (length fs) + k - 1) div k"
    using length_selected_from[OF assms, of 0 fs] by simp
  also have "\<dots> = \<lceil>(of_int (int (length fs)) :: rat) / of_int k\<rceil>"
    by (rule ceiling_quotient[OF assms, symmetric])
  finally show ?thesis by simp
qed

lemma length_capped:
  "int (length (capped m 0 xs)) =
     (case m of None \<Rightarrow> int (length xs)
      | Some mx \<Rightarrow> if mx = 0 then int (length xs) else min (int (length xs)) (max 0 mx))"
  by (cases m) auto

section \<open>File names\<close>

lemma digit_val_digit_char: "digit_val (digit_char n) = n mod 10"
proof -
  have "n mod 10 < 10" by simp
  then have "n mod 10 = 0 \<or> n mod 10 = 1 \<or> n mod 10 = 2 \<or> n mod 10 = 3 \<or> n mod 10 = 4 \<or>
             n mod 10 = 5 \<or> n mod 10 = 6 \<or> n mod 10 = 7 \<or> n mod 10 = 8 \<or> n mod 10 = 9"
    by arith
  then show ?thesis
    by (elim disjE) (simp_all add: digit_val_def digit_char_def)
qed

lemma decimal_value_snoc: "decimal_value (s @ [c]) = 10 * decimal_value s + digit_val c"
  by (simp add: decimal_value_def)

lemma decimal_value_dec_digits: "decimal_value (dec_digits n) = n"
proof (induction n rule: dec_digits.induct)
  case (1 n)
  show ?case
  proof (cases "n < 10")
    case True
    then show ?thesis
      by (subst dec_digits.simps) (simp add: decimal_value_def digit_val_digit_char)
  next
    case False
    with 1 have "decimal_value (dec_digits (n div 10)) = n div 10" by simp
    with False show ?thesis
      by (subst dec_digits.simps) (simp add: decimal_value_snoc digit_val_digit_char)
  qed
qed

lemma digit_val_zero: "digit_val CHR ''0'' = 0"
  by (simp add: digit_val_def)

lemma decimal_value_zeros: "decimal_value (replicate j CHR ''0'' @ s) = decimal_value s"
proof -
  have "foldl (\<lambda>a c. 10 * a + digit_val c) 0 (replicate j CHR ''0'') = 0"
    by (induction j) (simp_all add: digit_val_zero)
  then show ?thesis by (simp add: decimal_value_def)
qed

lemma decimal_value_format: "0 \<le> i \<Longrightarrow> decimal_value (format_06d i) = nat i"
  by (simp add: format_06d_def decimal_value_zeros decimal_value_dec_digits)

lemma frame_filename_inj:
  assumes "0 \<le> i" "0 \<le> j" "frame_filename i = frame_filename j"
  shows "i = j"
proof -
  from assms(3) have "format_06d i = format_06d j"
    by (simp add: frame_filename_def)
  then have "decimal_value (format_06d i) = decimal_value (format_06d j)" by simp
  with assms(1,2) show ?thesis by (simp add: decimal_value_format)
qed

lemma frame_filename_no_slash: "frame_filename i \<noteq> [] \<and> hd (frame_filename i) \<noteq> CHR ''/''"
  by (simp add: frame_filename_def)

lemma path_join_frame:
  "path_join d (frame_filename i) =
     (if d = [] \<or> last d = CHR ''/'' then d else d @ ''/'') @ frame_filename i"
  using frame_filename_no_slash[of i] by (simp add: path_join_def)

lemma path_join_frame_inj:
  assumes "0 \<le> i" "0 \<le> j" "path_join d (frame_filename i) = path_join d (frame_filename j)"
  shows "i = j"
  using assms by (simp add: path_join_frame frame_filename_inj)

lemma distinct_paths:
  "distinct (map (\<lambda>i. path_join d (frame_filename (int i))) [0..<n])"
proof -
  have "inj_on (\<lambda>i. path_join d (frame_filename (int i))) (set [0..<n])"
    by (rule inj_onI) (auto dest: path_join_frame_inj[rotated 2])
  then show ?thesis by (simp add: distinct_map)
qed

lemma frame_filename_first: "frame_filename 0 = ''frame_000000.jpg''"
  by code_simp

lemma frame_filename_sixteen: "frame_filename 16 = ''frame_000016.jpg''"
  by code_simp

lemma frame_filename_wide: "frame_filename 1234567 = ''frame_1234567.jpg''"
  by (simp add: frame_filename_def format_06d_def dec_digits.simps digit_char_def)

section \<open>A limit of zero\<close>

lemma loop_body_zero_cap: "loop_body d k (Some 0) q f s = loop_body d k None q f s"
  by (simp add: loop_body_def)

lemma frame_loop_zero_cap: "frame_loop d k (Some 0) q fs s = frame_loop d k None q fs s"
  by (induction fs arbitrary: s) (simp_all add: loop_body_zero_cap split: control.splits)

lemma estimated_frames_zero_cap: "estimated_frames n k (Some 0) = estimated_frames n k None"
  by (simp add: estimated_frames_def)

lemma extract_opened_zero_cap:
  "extract_opened E cap d k t (Some 0) q out dirs = extract_opened E cap d k t None q out dirs"
  unfolding extract_opened_def frame_loop_zero_cap estimated_frames_zero_cap by (rule refl)

lemma extract_frames_run:
  assumes "path_exists E v" and "video_capture E v = Some cap" and "cap_fps cap \<noteq> Fin 0"
      and "effective_interval (fl_round E) (cap_fps cap) t k0 = Inr k" and "k \<noteq> 0"
      and "dir_ready E d"
  shows "returned (extract_frames E v d k0 t m q) = Inr True"
    and "written (extract_frames E v d k0 t m q) =
           numbered_writes d (fst (check_quality q)) 0 (capped m 0 (selected k 0 (cap_frames cap)))"
  unfolding extract_frames_opened[OF assms(1,2,6)]
  using extract_opened_run[OF assms(3,4,5)] by simp_all

section \<open>The limit as a loop invariant\<close>

lemma loop_states_invariant:
  assumes "mx \<noteq> 0" and "saved_count s \<le> mx" and "int (length (writes s)) = saved_count s"
  shows "\<forall>s' \<in> set (loop_states d k (Some mx) q fs s).
           saved_count s' \<le> mx \<and> int (length (writes s')) = saved_count s'"
  using assms(2,3)
proof (induction fs arbitrary: s)
  case Nil
  then show ?case by simp
next
  case (Cons f fs)
  show ?case
  proof (cases "loop_body d k (Some mx) q f s")
    case Break
    with Cons.prems show ?thesis by simp
  next
    case (Raise e)
    with Cons.prems show ?thesis by simp
  next
    case (Continue s')
    then have "saved_count s' \<le> mx \<and> int (length (writes s')) = saved_count s'"
      using Cons.prems assms(1)
      by (auto simp: loop_body_def split: if_splits)
    then have "\<forall>s'' \<in> set (loop_states d k (Some mx) q fs s').
           saved_count s'' \<le> mx \<and> int (length (writes s'')) = saved_count s''"
      using Cons.IH by blast
    with Continue Cons.prems show ?thesis by simp
  qed
qed

lemma frame_loop_final_in_states:
  "(case frame_loop d k m q fs s of Inl (e, s') \<Rightarrow> s' | Inr s' \<Rightarrow> s')
     \<in> set (loop_states d k m q fs s)"
proof (induction fs arbitrary: s)
  case Nil
  then show ?case by simp
next
  case (Cons f fs)
  show ?case
  proof (cases "loop_body d k m q f s")
    case Break
    then show ?thesis by simp
  next
    case (Raise e)
    then show ?thesis by simp
  next
    case (Continue s')
    with Cons.IH[of s'] show ?thesis by simp
  qed
qed

lemma initial_state_invariant:
  "saved_count (initial_state :: 'fr loop_state) = 0"
  "int (length (writes (initial_state :: 'fr loop_state))) = saved_count (initial_state :: 'fr loop_state)"
  by (simp_all add: initial_state_def)

lemma written_at_most_cap:
  assumes "1 \<le> mx"
  shows "int (length (written (extract_frames E v d k0 t (Some mx) q))) \<le> mx"
proof -
  obtain xs where xs: "written (extract_frames E v d k0 t (Some mx) q) =
      numbered_writes d (fst (check_quality q)) 0 xs"
    using extract_frames_shape by blast
  show ?thesis
  proof (cases "path_exists E v \<and> dir_ready E d \<and> video_capture E v \<noteq> None")
    case False
    then consider "\<not> path_exists E v" | "path_exists E v" "\<not> dir_ready E d"
      | "path_exists E v" "dir_ready E d" "video_capture E v = None"
      by blast
    then have "written (extract_frames E v d k0 t (Some mx) q) = []"
    proof cases
      case 1
      then show ?thesis by (simp add: extract_frames_missing)
    next
      case 2
      from 2(2) obtain e where "\<not> path_exists E d" and "os_makedirs E d = Some e"
        by (rule not_dir_ready)
      with 2(1) show ?thesis by (simp add: extract_frames_no_dir)
    next
      case 3
      then show ?thesis by (simp add: extract_frames_unopened)
    qed
    with assms show ?thesis by simp
  next
    case True
    then obtain cap where ex: "path_exists E v" and dr: "dir_ready E d"
      and Some: "video_capture E v = Some cap"
      by auto
    show ?thesis
    proof (cases "cap_fps cap = Fin 0")
      case True
      with assms show ?thesis
        unfolding extract_frames_opened[OF ex Some dr] by (simp add: extract_opened_fps_zero)
    next
      case fps: False
      show ?thesis
      proof (cases "effective_interval (fl_round E) (cap_fps cap) t k0")
        case (Inl e)
        with assms show ?thesis
          unfolding extract_frames_opened[OF ex Some dr] by (simp add: extract_opened_interval_error)
      next
        case (Inr k)
        show ?thesis
        proof (cases "k = 0")
          case True
          with Inr assms show ?thesis
            unfolding extract_frames_opened[OF ex Some dr] by (simp add: extract_opened_interval_zero)
        next
          case False
          have "written (extract_frames E v d k0 t (Some mx) q) =
                  numbered_writes d (fst (check_quality q)) 0
                    (capped (Some mx) 0 (selected k 0 (cap_frames cap)))"
            by (rule extract_frames_run(2)[OF ex Some fps Inr False dr])
          with assms show ?thesis
            by (simp add: length_numbered_writes)
        qed
      qed
    qed
  qed
qed

section \<open>Lines printed before the capture is opened\<close>

lemma extract_opened_printed_prefix:
  "extract_opened E cap d k t m q (a # out) dirs =
     (extract_opened E cap d k t m q out dirs)
       \<lparr>printed := a # printed (extract_opened E cap d k t m q out dirs)\<rparr>"
  by (simp add: extract_opened_def Let_def split: sum.splits prod.splits)

section \<open>The interval in effect\<close>

lemma extract_opened_same_interval:
  assumes "effective_interval (fl_round E) (cap_fps cap) t k =
           effective_interval (fl_round E) (cap_fps cap) t' k'"
  shows "extract_opened E cap d k t m q out dirs = extract_opened E cap d k' t' m q out dirs"
  unfolding extract_opened_def Let_def assms by (rule refl)

lemma extract_in_dir_same_interval:
  assumes "video_capture E v = Some cap"
      and "effective_interval (fl_round E) (cap_fps cap) t k =
           effective_interval (fl_round E) (cap_fps cap) t' k'"
  shows "extract_in_dir E v d k t m q out dirs = extract_in_dir E v d k' t' m q out dirs"
  using assms(1) extract_opened_same_interval[OF assms(2)]
  by (simp add: extract_in_dir_def)

lemma extract_frames_same_interval:
  assumes "video_capture E v = Some cap"
      and "effective_interval (fl_round E) (cap_fps cap) t k =
           effective_interval (fl_round E) (cap_fps cap) t' k'"
  shows "extract_frames E v d k t m q = extract_frames E v d k' t' m q"
  unfolding extract_frames_def extract_in_dir_same_interval[OF assms] by (rule refl)

lemma fl_positive_truthy: "fl_less (Fin 0) t \<Longrightarrow> fl_truthy t"
  by (cases t) auto

lemma fl_le_not_less: "fl_le x y \<Longrightarrow> \<not> fl_less y x"
  by (cases x; cases y) auto

lemma fps_interval_at_least_one: "fps_interval rnd x y = Inr n \<Longrightarrow> 1 \<le> n"
  by (auto simp: fps_interval_def split: sum.splits)

section \<open>The frames at multiples of the interval\<close>

lemma selected_enumerate:
  "selected k (int c) fs =
     map snd (filter (\<lambda>p. int (fst p) mod k = 0) (enumerate c fs))"
proof (induction fs arbitrary: c)
  case Nil
  then show ?case by simp
next
  case (Cons f fs)
  have "selected k (int c + 1) fs = selected k (int (Suc c)) fs"
    by (simp add: add.commute)
  with Cons.IH[of "Suc c"] show ?case by simp
qed

lemma selected_at_multiples: "selected k 0 fs = at_multiples k fs"
  using selected_enumerate[of k 0 fs] by (simp add: at_multiples_def)

lemma length_at_multiples:
  assumes "0 < k"
  shows "int (length (at_multiples k fs)) = \<lceil>(of_nat (length fs) :: rat) / of_int k\<rceil>"
  using length_selected[OF assms] by (simp add: selected_at_multiples)

section \<open>The interval from the target frame rate\<close>

lemma fl_between_not_zero:
  assumes "fl_less (Fin 0) t" and "fl_less t x"
  shows "t \<noteq> Fin 0" and "x \<noteq> Fin 0"
  using assms by (cases t; cases x; auto)+

lemma effective_interval_target:
  assumes "fl_less (Fin 0) t" and "fl_less t x"
  shows "effective_interval rnd x (Some t) k =
           (case py_int (fl_quot rnd x t) of Inl e \<Rightarrow> Inl e | Inr n \<Rightarrow> Inr (max 1 n))"
  using assms fl_between_not_zero(1)[OF assms]
  by (simp add: effective_interval_def fps_interval_def fl_div_def fl_positive_truthy)

lemma effective_interval_unset: "effective_interval rnd x None k = Inr k"
  by (simp add: effective_interval_def)

lemma max_one_truncate:
  fixes x :: rat
  shows "max 1 (if 0 \<le> x then \<lfloor>x\<rfloor> else \<lceil>x\<rceil>) = max 1 \<lfloor>x\<rfloor>"
proof (cases "0 \<le> x")
  case True
  then show ?thesis by simp
next
  case False
  then have "\<lceil>x\<rceil> \<le> 0" and "\<lfloor>x\<rfloor> \<le> 0"
    by (simp_all add: ceiling_le_iff floor_le_iff)
  with False show ?thesis by simp
qed


section \<open>The claims\<close>

text \<open>
  Claim C1, amended. For a video file that exists and opens, an output directory that
  exists or can be created, a reported frame rate other than zero, \<open>N\<close> delivered frames
  and every effective frame interval \<open>k \<ge> 1\<close>, \<open>extract_frames\<close> returns \<open>True\<close> and saves
  exactly the frames at positions 0, k, 2k, ..., of which there are \<open>ceil(N / k)\<close>, capped
  by \<open>max_frames\<close> when a limit \<open>max_frames \<ge> 1\<close> is given: then the first
  \<open>min(ceil(N / k), max_frames)\<close> of these frames are saved. A limit of 0 is no limit, and
  a negative limit saves no frame.
\<close>

theorem saved_frame_count:
  assumes "path_exists E v" and "video_capture E v = Some cap" and "dir_ready E d"
      and "cap_fps cap \<noteq> Fin 0"
      and "effective_interval (fl_round E) (cap_fps cap) t k0 = Inr k" and "1 \<le> k"
  shows "returned (extract_frames E v d k0 t m q) = Inr True \<and>
         int (length (at_multiples k (cap_frames cap))) =
           \<lceil>(of_nat (length (cap_frames cap)) :: rat) / of_int k\<rceil> \<and>
         (m = None \<or> m = Some 0 \<longrightarrow>
            map w_frame (written (extract_frames E v d k0 t m q)) =
              at_multiples k (cap_frames cap) \<and>
            int (length (written (extract_frames E v d k0 t m q))) =
              \<lceil>(of_nat (length (cap_frames cap)) :: rat) / of_int k\<rceil>) \<and>
         (\<forall>mx. m = Some mx \<and> 1 \<le> mx \<longrightarrow>
            map w_frame (written (extract_frames E v d k0 t m q)) =
              take (nat mx) (at_multiples k (cap_frames cap)) \<and>
            int (length (written (extract_frames E v d k0 t m q))) =
              min \<lceil>(of_nat (length (cap_frames cap)) :: rat) / of_int k\<rceil> mx) \<and>
         (\<forall>mx. m = Some mx \<and> mx < 0 \<longrightarrow> written (extract_frames E v d k0 t m q) = [])"
proof -
  have k: "k \<noteq> 0" "0 < k" using assms(6) by simp_all
  have r: "returned (extract_frames E v d k0 t m q) = Inr True"
    by (rule extract_frames_run(1)[OF assms(1,2,4,5) k(1) assms(3)])
  have w: "written (extract_frames E v d k0 t m q) =
             numbered_writes d (fst (check_quality q)) 0
               (capped m 0 (at_multiples k (cap_frames cap)))"
    using extract_frames_run(2)[OF assms(1,2,4,5) k(1) assms(3)]
    by (simp add: selected_at_multiples)
  have f: "map w_frame (written (extract_frames E v d k0 t m q)) =
             capped m 0 (at_multiples k (cap_frames cap))"
    by (simp add: w frames_numbered_writes)
  have l: "int (length (written (extract_frames E v d k0 t m q))) =
             int (length (capped m 0 (at_multiples k (cap_frames cap))))"
    by (simp add: w length_numbered_writes)
  have n: "int (length (at_multiples k (cap_frames cap))) =
             \<lceil>(of_nat (length (cap_frames cap)) :: rat) / of_int k\<rceil>"
    by (rule length_at_multiples[OF k(2)])
  have a: "m = None \<or> m = Some 0 \<longrightarrow>
            map w_frame (written (extract_frames E v d k0 t m q)) =
              at_multiples k (cap_frames cap) \<and>
            int (length (written (extract_frames E v d k0 t m q))) =
              \<lceil>(of_nat (length (cap_frames cap)) :: rat) / of_int k\<rceil>"
    using f l n by auto
  have b: "\<forall>mx. m = Some mx \<and> 1 \<le> mx \<longrightarrow>
            map w_frame (written (extract_frames E v d k0 t m q)) =
              take (nat mx) (at_multiples k (cap_frames cap)) \<and>
            int (length (written (extract_frames E v d k0 t m q))) =
              min \<lceil>(of_nat (length (cap_frames cap)) :: rat) / of_int k\<rceil> mx"
  proof (intro allI impI)
    fix mx assume h: "m = Some mx \<and> 1 \<le> mx"
    then have "capped m 0 (at_multiples k (cap_frames cap)) =
                 take (nat mx) (at_multiples k (cap_frames cap))"
      by auto
    moreover from h have "int (length (capped m 0 (at_multiples k (cap_frames cap)))) =
        min (int (length (at_multiples k (cap_frames cap)))) mx"
      by (auto simp: length_capped)
    ultimately show "map w_frame (written (extract_frames E v d k0 t m q)) =
              take (nat mx) (at_multiples k (cap_frames cap)) \<and>
            int (length (written (extract_frames E v d k0 t m q))) =
              min \<lceil>(of_nat (length (cap_frames cap)) :: rat) / of_int k\<rceil> mx"
      using f l n by simp
  qed
  have c: "\<forall>mx. m = Some mx \<and> mx < 0 \<longrightarrow> written (extract_frames E v d k0 t m q) = []"
    using w by auto
  from r n a b c show ?thesis by blast
qed

theorem saved_frame_count_witness:
  "path_exists (sample_env (sample_capture 5 (Fin 30) 5)) ''v.avi'' \<and>
   video_capture (sample_env (sample_capture 5 (Fin 30) 5)) ''v.avi'' = Some (sample_capture 5 (Fin 30) 5) \<and>
   dir_ready (sample_env (sample_capture 5 (Fin 30) 5)) ''out'' \<and>
   cap_fps (sample_capture 5 (Fin 30) 5) \<noteq> Fin 0 \<and>
   effective_interval (fl_round (sample_env (sample_capture 5 (Fin 30) 5)))
      (cap_fps (sample_capture 5 (Fin 30) 5)) None 2 = Inr 2 \<and> (1::int) \<le> 2 \<and>
   returned (extract_frames (sample_env (sample_capture 5 (Fin 30) 5)) ''v.avi'' ''out'' 2 None (Some 2) 95) = Inr True \<and>
   map w_frame (written (extract_frames (sample_env (sample_capture 5 (Fin 30) 5)) ''v.avi'' ''out'' 2 None None 95)) = [0, 2, 4] \<and>
   map w_frame (written (extract_frames (sample_env (sample_capture 5 (Fin 30) 5)) ''v.avi'' ''out'' 2 None (Some 2) 95)) = [0, 2] \<and>
   int (length (written (extract_frames (sample_env (sample_capture 5 (Fin 30) 5)) ''v.avi'' ''out'' 2 None (Some 2) 95))) =
     min \<lceil>(of_nat (length (cap_frames (sample_capture 5 (Fin 30) 5))) :: rat) / of_int 2\<rceil> 2 \<and>
   written (extract_frames (sample_env (sample_capture 5 (Fin 30) 5)) ''v.avi'' ''out'' 2 None (Some (- 1)) 95) = []"
proof -
  have h1: "path_exists (sample_env (sample_capture 5 (Fin 30) 5)) ''v.avi''"
    by (simp add: sample_env_def path_exists_def)
  have h2: "video_capture (sample_env (sample_capture 5 (Fin 30) 5)) ''v.avi'' = Some (sample_capture 5 (Fin 30) 5)"
    by (simp add: sample_env_def)
  have h3: "dir_ready (sample_env (sample_capture 5 (Fin 30) 5)) ''out''"
    by (simp add: sample_env_def dir_ready_def os_makedirs_def)
  have h4: "cap_fps (sample_capture 5 (Fin 30) 5) \<noteq> Fin 0"
    by (simp add: sample_capture_def)
  have h5: "effective_interval (fl_round (sample_env (sample_capture 5 (Fin 30) 5)))
      (cap_fps (sample_capture 5 (Fin 30) 5)) None 2 = Inr 2"
    by (simp add: effective_interval_def)
  have h6: "(1::int) \<le> 2" by simp
  have s: "at_multiples 2 (cap_frames (sample_capture 5 (Fin 30) 5)) = [0, 2, 4]"
    by code_simp
  note T = saved_frame_count[OF h1 h2 h3 h4 h5 h6]
  from T[of "Some 2" 95] s
  have a: "returned (extract_frames (sample_env (sample_capture 5 (Fin 30) 5)) ''v.avi'' ''out'' 2 None (Some 2) 95) = Inr True \<and>
   map w_frame (written (extract_frames (sample_env (sample_capture 5 (Fin 30) 5)) ''v.avi'' ''out'' 2 None (Some 2) 95)) = [0, 2] \<and>
   int (length (written (extract_frames (sample_env (sample_capture 5 (Fin 30) 5)) ''v.avi'' ''out'' 2 None (Some 2) 95))) =
     min \<lceil>(of_nat (length (cap_frames (sample_capture 5 (Fin 30) 5))) :: rat) / of_int 2\<rceil> 2"
    by simp
  from T[of None 95] s
  have b: "map w_frame (written (extract_frames (sample_env (sample_capture 5 (Fin 30) 5)) ''v.avi'' ''out'' 2 None None 95)) = [0, 2, 4]"
    by simp
  from T[of "Some (- 1)" 95]
  have c: "written (extract_frames (sample_env (sample_capture 5 (Fin 30) 5)) ''v.avi'' ''out'' 2 None (Some (- 1)) 95) = []"
    by simp
  from h1 h2 h3 h4 h5 h6 a b c show ?thesis by blast
qed

text \<open>
  Claim C1 as stated fails: a video whose reported frame count is 5 and that delivers 5
  frames, read with interval 2 and no limit into a directory that is created, gives 3
  saved frames (0, 2 and 4), not \<open>floor(5 / 2) = 2\<close>.
\<close>

theorem saved_frame_count_counterexample:
  "cap_frame_count (sample_capture 5 (Fin 30) 5) = 5 \<and>
   length (cap_frames (sample_capture 5 (Fin 30) 5)) = 5 \<and>
   returned (extract_frames (sample_env (sample_capture 5 (Fin 30) 5)) ''v.avi'' ''out'' 2 None None 95) = Inr True \<and>
   int (length (written (extract_frames (sample_env (sample_capture 5 (Fin 30) 5)) ''v.avi'' ''out'' 2 None None 95))) = 3 \<and>
   int (length (written (extract_frames (sample_env (sample_capture 5 (Fin 30) 5)) ''v.avi'' ''out'' 2 None None 95)))
     \<noteq> cap_frame_count (sample_capture 5 (Fin 30) 5) div 2"
  by code_simp

text \<open>
  Claim C2, amended. A missing video file and a video that cannot be opened are each
  detected by a conditional check, reported by a printed line, and make \<open>extract_frames\<close>
  return \<open>False\<close> with no frame written (the check of the video comes after the output
  directory is there: it exists or is created). An invalid quality is detected by a
  conditional check and reported by a printed warning, but does not end the call: whenever
  the file exists and opens, \<open>False\<close> is not returned, whatever the quality.
\<close>

theorem error_conditions:
  "(\<not> path_exists E v \<longrightarrow>
      extract_frames E v d k t m q =
        \<lparr>returned = Inr False, printed = [MsgVideoMissing v], made_dirs = [], written = []\<rparr>) \<and>
   (path_exists E v \<and> dir_ready E d \<and> video_capture E v = None \<longrightarrow>
      returned (extract_frames E v d k t m q) = Inr False \<and>
      last (printed (extract_frames E v d k t m q)) = MsgCannotOpen \<and>
      written (extract_frames E v d k t m q) = []) \<and>
   (path_exists E v \<and> (q < 1 \<or> 100 < q) \<longrightarrow>
      hd (printed (extract_frames E v d k t m q)) = MsgQualityWarning) \<and>
   (path_exists E v \<and> video_capture E v \<noteq> None \<longrightarrow>
      returned (extract_frames E v d k t m q) \<noteq> Inr False)"
proof -
  have a: "\<not> path_exists E v \<longrightarrow>
      extract_frames E v d k t m q =
        \<lparr>returned = Inr False, printed = [MsgVideoMissing v], made_dirs = [], written = []\<rparr>"
    by (simp add: extract_frames_missing)
  have b: "path_exists E v \<and> dir_ready E d \<and> video_capture E v = None \<longrightarrow>
      returned (extract_frames E v d k t m q) = Inr False \<and>
      last (printed (extract_frames E v d k t m q)) = MsgCannotOpen \<and>
      written (extract_frames E v d k t m q) = []"
    by (simp add: extract_frames_unopened)
  have c: "path_exists E v \<and> (q < 1 \<or> 100 < q) \<longrightarrow>
      hd (printed (extract_frames E v d k t m q)) = MsgQualityWarning"
  proof
    assume h: "path_exists E v \<and> (q < 1 \<or> 100 < q)"
    then have ex: "path_exists E v" by simp
    from h have cq: "check_quality q = (95, [MsgQualityWarning])"
      by (auto simp: check_quality_def)
    show "hd (printed (extract_frames E v d k t m q)) = MsgQualityWarning"
    proof (cases "dir_ready E d")
      case False
      then obtain e where "\<not> path_exists E d" and "os_makedirs E d = Some e"
        by (rule not_dir_ready)
      with ex cq show ?thesis by (simp add: extract_frames_no_dir)
    next
      case dr: True
      show ?thesis
      proof (cases "video_capture E v")
        case None
        with ex dr cq show ?thesis by (simp add: extract_frames_unopened)
      next
        case (Some cap)
        show ?thesis
          unfolding extract_frames_opened[OF ex Some dr]
          by (simp add: cq extract_opened_printed_prefix)
      qed
    qed
  qed
  have e: "path_exists E v \<and> video_capture E v \<noteq> None \<longrightarrow>
      returned (extract_frames E v d k t m q) \<noteq> Inr False"
  proof
    assume h: "path_exists E v \<and> video_capture E v \<noteq> None"
    then obtain cap where cap: "video_capture E v = Some cap" by auto
    from h have ex: "path_exists E v" by simp
    show "returned (extract_frames E v d k t m q) \<noteq> Inr False"
    proof (cases "dir_ready E d")
      case False
      then obtain e where "\<not> path_exists E d" and "os_makedirs E d = Some e"
        by (rule not_dir_ready)
      with ex show ?thesis by (simp add: extract_frames_no_dir)
    next
      case True
      show ?thesis
        unfolding extract_frames_opened[OF ex cap True] by (rule extract_opened_not_False)
    qed
  qed
  from a b c e show ?thesis by blast
qed

theorem error_conditions_witness:
  "\<not> path_exists (sample_env (sample_capture 2 (Fin 30) 2)) ''missing.avi'' \<and>
   extract_frames (sample_env (sample_capture 2 (Fin 30) 2)) ''missing.avi'' ''out'' 1 None None 95 =
     \<lparr>returned = Inr False, printed = [MsgVideoMissing ''missing.avi''], made_dirs = [], written = []\<rparr> \<and>
   path_exists (sample_env (sample_capture 2 (Fin 30) 2)) ''broken.avi'' \<and>
   dir_ready (sample_env (sample_capture 2 (Fin 30) 2)) ''out'' \<and>
   video_capture (sample_env (sample_capture 2 (Fin 30) 2)) ''broken.avi'' = None \<and>
   returned (extract_frames (sample_env (sample_capture 2 (Fin 30) 2)) ''broken.avi'' ''out'' 1 None None 95) = Inr False \<and>
   last (printed (extract_frames (sample_env (sample_capture 2 (Fin 30) 2)) ''broken.avi'' ''out'' 1 None None 95)) = MsgCannotOpen \<and>
   written (extract_frames (sample_env (sample_capture 2 (Fin 30) 2)) ''broken.avi'' ''out'' 1 None None 95) = [] \<and>
   path_exists (sample_env (sample_capture 2 (Fin 30) 2)) ''v.avi'' \<and>
   video_capture (sample_env (sample_capture 2 (Fin 30) 2)) ''v.avi'' \<noteq> None \<and>
   ((0::int) < 1 \<or> (100::int) < 0) \<and>
   hd (printed (extract_frames (sample_env (sample_capture 2 (Fin 30) 2)) ''v.avi'' ''out'' 1 None None 0)) = MsgQualityWarning \<and>
   returned (extract_frames (sample_env (sample_capture 2 (Fin 30) 2)) ''v.avi'' ''out'' 1 None None 0) \<noteq> Inr False"
proof -
  have h1: "\<not> path_exists (sample_env (sample_capture 2 (Fin 30) 2)) ''missing.avi''"
    by (simp add: sample_env_def path_exists_def)
  have h2: "path_exists (sample_env (sample_capture 2 (Fin 30) 2)) ''v.avi''"
    by (simp add: sample_env_def path_exists_def)
  have h3: "video_capture (sample_env (sample_capture 2 (Fin 30) 2)) ''v.avi'' \<noteq> None"
    by (simp add: sample_env_def)
  have h4: "(0::int) < 1 \<or> (100::int) < 0" by simp
  have h5: "path_exists (sample_env (sample_capture 2 (Fin 30) 2)) ''broken.avi''"
    by (simp add: sample_env_def path_exists_def)
  have h6: "dir_ready (sample_env (sample_capture 2 (Fin 30) 2)) ''out''"
    by (simp add: sample_env_def dir_ready_def os_makedirs_def)
  have h7: "video_capture (sample_env (sample_capture 2 (Fin 30) 2)) ''broken.avi'' = None"
    by (simp add: sample_env_def)
  from error_conditions[of "sample_env (sample_capture 2 (Fin 30) 2)" "''missing.avi''" "''out''" 1 None None 95] h1
  have a: "extract_frames (sample_env (sample_capture 2 (Fin 30) 2)) ''missing.avi'' ''out'' 1 None None 95 =
     \<lparr>returned = Inr False, printed = [MsgVideoMissing ''missing.avi''], made_dirs = [], written = []\<rparr>"
    by blast
  from error_conditions[of "sample_env (sample_capture 2 (Fin 30) 2)" "''v.avi''" "''out''" 1 None None 0] h2 h3 h4
  have b: "hd (printed (extract_frames (sample_env (sample_capture 2 (Fin 30) 2)) ''v.avi'' ''out'' 1 None None 0)) = MsgQualityWarning \<and>
   returned (extract_frames (sample_env (sample_capture 2 (Fin 30) 2)) ''v.avi'' ''out'' 1 None None 0) \<noteq> Inr False"
    by blast
  from error_conditions[of "sample_env (sample_capture 2 (Fin 30) 2)" "''broken.avi''" "''out''" 1 None None 95] h5 h6 h7
  have c: "returned (extract_frames (sample_env (sample_capture 2 (Fin 30) 2)) ''broken.avi'' ''out'' 1 None None 95) = Inr False \<and>
   last (printed (extract_frames (sample_env (sample_capture 2 (Fin 30) 2)) ''broken.avi'' ''out'' 1 None None 95)) = MsgCannotOpen \<and>
   written (extract_frames (sample_env (sample_capture 2 (Fin 30) 2)) ''broken.avi'' ''out'' 1 None None 95) = []"
    by blast
  from h1 h2 h3 h4 h5 h6 h7 a b c show ?thesis by blast
qed

text \<open>
  Claim C2 as stated fails for the invalid quality: with \<open>jpg_quality = 0\<close> on a video of
  two frames that exists and opens, the call returns \<open>True\<close> and writes both frames.
\<close>

theorem error_conditions_counterexample:
  "(0::int) < 1 \<and>
   returned (extract_frames (sample_env (sample_capture 2 (Fin 30) 2)) ''v.avi'' ''out'' 1 None None 0) = Inr True \<and>
   written (extract_frames (sample_env (sample_capture 2 (Fin 30) 2)) ''v.avi'' ''out'' 1 None None 0) =
     [Imwrite ''out/frame_000000.jpg'' 0 95, Imwrite ''out/frame_000001.jpg'' 1 95]"
  by code_simp

text \<open>
  Claim C3. For every \<open>jpg_quality\<close> below 1 or above 100, \<open>extract_frames\<close> goes on
  with the quality 95: it returns what the call with \<open>jpg_quality = 95\<close> returns, creates
  the same directories and writes the same files, every one of them with quality 95, and
  prints the same lines after the warning (which is printed once the video file is found
  to exist).
\<close>

theorem invalid_quality_falls_back:
  assumes "q < 1 \<or> 100 < q"
  shows "returned (extract_frames E v d k t m q) = returned (extract_frames E v d k t m 95) \<and>
         written (extract_frames E v d k t m q) = written (extract_frames E v d k t m 95) \<and>
         made_dirs (extract_frames E v d k t m q) = made_dirs (extract_frames E v d k t m 95) \<and>
         printed (extract_frames E v d k t m q) =
           (if path_exists E v then MsgQualityWarning # printed (extract_frames E v d k t m 95)
            else printed (extract_frames E v d k t m 95)) \<and>
         (\<forall>w \<in> set (written (extract_frames E v d k t m q)). w_quality w = 95)"
proof -
  have cq: "check_quality q = (95, [MsgQualityWarning])" "check_quality 95 = (95, [])"
    using assms by (auto simp: check_quality_def)
  have eq: "extract_frames E v d k t m q =
      (if path_exists E v
       then (extract_frames E v d k t m 95)\<lparr>printed := MsgQualityWarning # printed (extract_frames E v d k t m 95)\<rparr>
       else extract_frames E v d k t m 95)"
    by (simp add: extract_frames_def extract_in_dir_def cq Let_def extract_opened_printed_prefix
          split: option.splits)
  obtain xs where "written (extract_frames E v d k t m q) = numbered_writes d (fst (check_quality q)) 0 xs"
    using extract_frames_shape by blast
  then have "\<forall>w \<in> set (written (extract_frames E v d k t m q)). w_quality w = 95"
    by (simp add: cq quality_numbered_writes)
  moreover have "returned (extract_frames E v d k t m q) = returned (extract_frames E v d k t m 95)"
    by (subst eq) simp
  moreover have "written (extract_frames E v d k t m q) = written (extract_frames E v d k t m 95)"
    by (subst eq) simp
  moreover have "made_dirs (extract_frames E v d k t m q) = made_dirs (extract_frames E v d k t m 95)"
    by (subst eq) simp
  moreover have "printed (extract_frames E v d k t m q) =
           (if path_exists E v then MsgQualityWarning # printed (extract_frames E v d k t m 95)
            else printed (extract_frames E v d k t m 95))"
    by (subst eq) simp
  ultimately show ?thesis by blast
qed

theorem invalid_quality_falls_back_witness:
  "((0::int) < 1 \<or> (100::int) < 0) \<and>
   written (extract_frames (sample_env (sample_capture 2 (Fin 30) 2)) ''v.avi'' ''out'' 1 None None 0) =
     [Imwrite ''out/frame_000000.jpg'' 0 95, Imwrite ''out/frame_000001.jpg'' 1 95] \<and>
   returned (extract_frames (sample_env (sample_capture 2 (Fin 30) 2)) ''v.avi'' ''out'' 1 None None 0) = Inr True \<and>
   hd (printed (extract_frames (sample_env (sample_capture 2 (Fin 30) 2)) ''v.avi'' ''out'' 1 None None 0)) = MsgQualityWarning"
proof -
  have h: "(0::int) < 1 \<or> (100::int) < 0" by simp
  have a: "written (extract_frames (sample_env (sample_capture 2 (Fin 30) 2)) ''v.avi'' ''out'' 1 None None 95) =
     [Imwrite ''out/frame_000000.jpg'' 0 95, Imwrite ''out/frame_000001.jpg'' 1 95]"
    by code_simp
  have b: "returned (extract_frames (sample_env (sample_capture 2 (Fin 30) 2)) ''v.avi'' ''out'' 1 None None 95) = Inr True"
    by code_simp
  have c: "path_exists (sample_env (sample_capture 2 (Fin 30) 2)) ''v.avi''"
    by (simp add: sample_env_def path_exists_def)
  from invalid_quality_falls_back[OF h, of "sample_env (sample_capture 2 (Fin 30) 2)" "''v.avi''" "''out''" 1 None None]
    a b c h
  show ?thesis by simp
qed

text \<open>
  Claim C4, amended. Whenever a limit \<open>max_frames \<ge> 1\<close> is given,
  \<open>saved_count \<le> max_frames\<close> holds at the head of every pass of the extraction loop
  and in the state the loop ends with, no more than \<open>max_frames\<close> files have been
  written at any of these points, and the number of files written by \<open>extract_frames\<close>
  never exceeds \<open>max_frames\<close>. (A limit of 0 counts as no limit, so the bound fails there.)
\<close>

theorem saved_count_within_limit:
  assumes "1 \<le> mx"
  shows "(\<forall>s \<in> set (loop_states d k (Some mx) q fs initial_state).
            saved_count s \<le> mx \<and> int (length (writes s)) \<le> mx) \<and>
         (case frame_loop d k (Some mx) q fs initial_state of
            Inl (e, s) \<Rightarrow> saved_count s \<le> mx
          | Inr s \<Rightarrow> saved_count s \<le> mx) \<and>
         int (length (written (extract_frames E v d' k0 t (Some mx) q0))) \<le> mx"
proof -
  have mx: "mx \<noteq> 0" "saved_count (initial_state :: 'a loop_state) \<le> mx"
    using assms by (simp_all add: initial_state_def)
  have inv: "\<forall>s \<in> set (loop_states d k (Some mx) q fs initial_state).
            saved_count s \<le> mx \<and> int (length (writes s)) = saved_count s"
    by (rule loop_states_invariant[OF mx initial_state_invariant(2)])
  have fin: "(case frame_loop d k (Some mx) q fs initial_state of Inl (e, s') \<Rightarrow> s' | Inr s' \<Rightarrow> s')
     \<in> set (loop_states d k (Some mx) q fs initial_state)"
    by (rule frame_loop_final_in_states)
  have a: "\<forall>s \<in> set (loop_states d k (Some mx) q fs initial_state).
            saved_count s \<le> mx \<and> int (length (writes s)) \<le> mx"
    using inv by auto
  have b: "(case frame_loop d k (Some mx) q fs initial_state of
            Inl (e, s) \<Rightarrow> saved_count s \<le> mx
          | Inr s \<Rightarrow> saved_count s \<le> mx)"
    using inv fin by (auto split: sum.splits)
  have c: "int (length (written (extract_frames E v d' k0 t (Some mx) q0))) \<le> mx"
    by (rule written_at_most_cap[OF assms])
  from a b c show ?thesis by blast
qed

theorem saved_count_within_limit_witness:
  "(1::int) \<le> 2 \<and>
   length (loop_states ''out'' 1 (Some 2) 95 [0::nat, 1, 2, 3] initial_state) = 3 \<and>
   saved_count (last (loop_states ''out'' 1 (Some 2) 95 [0::nat, 1, 2, 3] initial_state)) \<le> 2 \<and>
   int (length (written (extract_frames (sample_env (sample_capture 4 (Fin 30) 4))
        ''v.avi'' ''out'' 1 None (Some 2) 95))) \<le> 2 \<and>
   length (written (extract_frames (sample_env (sample_capture 4 (Fin 30) 4))
        ''v.avi'' ''out'' 1 None (Some 2) 95)) = 2"
proof -
  have h: "(1::int) \<le> 2" by simp
  have l: "length (loop_states ''out'' 1 (Some 2) 95 [0::nat, 1, 2, 3] initial_state) = 3"
    by code_simp
  have m: "last (loop_states ''out'' 1 (Some 2) 95 [0::nat, 1, 2, 3] initial_state)
             \<in> set (loop_states ''out'' 1 (Some 2) 95 [0::nat, 1, 2, 3] initial_state)"
    by code_simp
  have n: "length (written (extract_frames (sample_env (sample_capture 4 (Fin 30) 4))
        ''v.avi'' ''out'' 1 None (Some 2) 95)) = 2"
    by code_simp
  from saved_count_within_limit[OF h, of "''out''" 1 95 "[0::nat, 1, 2, 3]"
      "sample_env (sample_capture 4 (Fin 30) 4)" "''v.avi''" "''out''" 1 None 95] m
  have "saved_count (last (loop_states ''out'' 1 (Some 2) 95 [0::nat, 1, 2, 3] initial_state)) \<le> 2 \<and>
   int (length (written (extract_frames (sample_env (sample_capture 4 (Fin 30) 4))
        ''v.avi'' ''out'' 1 None (Some 2) 95))) \<le> 2"
    by blast
  with h l n show ?thesis by blast
qed

text \<open>
  Claim C4 as stated fails for the limit 0: with \<open>max_frames = 0\<close>, a video of two
  frames and interval 1, two files are written.
\<close>

theorem saved_count_limit_counterexample:
  "\<not> int (length (written (extract_frames (sample_env (sample_capture 2 (Fin 30) 2))
        ''v.avi'' ''out'' 1 None (Some 0) 95))) \<le> 0"
  by code_simp

text \<open>
  Claim C5. The files that a run of \<open>extract_frames\<close> writes are, in the order of
  writing, \<open>frame_{i:06d}.jpg\<close> in the output directory for \<open>i = 0, 1, ..., n - 1\<close>, where
  \<open>n\<close> is the number of frames saved: no index is skipped and no path occurs twice.
  The first two names are \<open>frame_000000.jpg\<close> and \<open>frame_000001.jpg\<close>.
\<close>

theorem frame_names_sequential:
  "map w_path (written (extract_frames E v d k t m q)) =
     map (\<lambda>i. path_join d (frame_filename (int i)))
       [0..<length (written (extract_frames E v d k t m q))] \<and>
   distinct (map w_path (written (extract_frames E v d k t m q))) \<and>
   frame_filename 0 = ''frame_000000.jpg'' \<and> frame_filename 1 = ''frame_000001.jpg''"
proof -
  obtain xs where xs: "written (extract_frames E v d k t m q) =
      numbered_writes d (fst (check_quality q)) 0 xs"
    using extract_frames_shape by blast
  have p: "map w_path (written (extract_frames E v d k t m q)) =
     map (\<lambda>i. path_join d (frame_filename (int i)))
       [0..<length (written (extract_frames E v d k t m q))]"
    unfolding xs by (simp add: paths_numbered_writes length_numbered_writes)
  then have "distinct (map w_path (written (extract_frames E v d k t m q)))"
    by (simp only: distinct_paths)
  moreover have "frame_filename 1 = ''frame_000001.jpg''"
    by code_simp
  ultimately show ?thesis using p frame_filename_first by blast
qed

text \<open>
  Claim C6. Every call of the image encoder made by \<open>extract_frames\<close> is given a JPEG
  quality between 1 and 100, whatever \<open>jpg_quality\<close> the caller passed.
\<close>

theorem quality_in_range:
  "\<forall>w \<in> set (written (extract_frames E v d k t m q)). 1 \<le> w_quality w \<and> w_quality w \<le> 100"
proof
  fix w assume w: "w \<in> set (written (extract_frames E v d k t m q))"
  obtain xs where "written (extract_frames E v d k t m q) =
      numbered_writes d (fst (check_quality q)) 0 xs"
    using extract_frames_shape by blast
  with w have "w_quality w = fst (check_quality q)"
    by (simp add: quality_numbered_writes)
  then show "1 \<le> w_quality w \<and> w_quality w \<le> 100"
    using check_quality_range[of q] by simp
qed

theorem quality_in_range_witness:
  "Imwrite ''out/frame_000000.jpg'' 0 95
     \<in> set (written (extract_frames (sample_env (sample_capture 2 (Fin 30) 2)) ''v.avi'' ''out'' 1 None None 300)) \<and>
   1 \<le> w_quality (Imwrite ''out/frame_000000.jpg'' (0::nat) 95) \<and>
   w_quality (Imwrite ''out/frame_000000.jpg'' (0::nat) 95) \<le> 100"
proof -
  have m: "Imwrite ''out/frame_000000.jpg'' 0 95
     \<in> set (written (extract_frames (sample_env (sample_capture 2 (Fin 30) 2)) ''v.avi'' ''out'' 1 None None 300))"
    by code_simp
  from quality_in_range[of "sample_env (sample_capture 2 (Fin 30) 2)" "''v.avi''" "''out''" 1 None None 300] m
  have "1 \<le> w_quality (Imwrite ''out/frame_000000.jpg'' (0::nat) 95) \<and>
   w_quality (Imwrite ''out/frame_000000.jpg'' (0::nat) 95) \<le> 100"
    by (rule bspec)
  with m show ?thesis by simp
qed

text \<open>
  Claim C7. On an opened video, for every \<open>target_fps\<close> with
  \<open>0 < target_fps < original_fps\<close> the division \<open>original_fps / target_fps\<close> does not
  raise, and when \<open>int\<close> of the quotient is \<open>n\<close> the call does exactly what the call with
  \<open>frame_interval = max(1, n)\<close> and no \<open>target_fps\<close> does; for finite rates \<open>a < b\<close> whose
  quotient rounds to the finite float \<open>x\<close> that interval is \<open>max(1, floor(x))\<close>. When
  \<open>int\<close> of the quotient raises (the quotient is infinite), a call that has found the
  video file and the output directory raises that exception and writes nothing. For
  \<open>target_fps \<ge> original_fps\<close> the call does exactly what the call with the given
  \<open>frame_interval\<close> and no \<open>target_fps\<close> does; and with \<open>target_fps\<close> unset the given
  \<open>frame_interval\<close> is the one used: a run that reaches the loop with no limit saves the
  frames at the multiples of \<open>frame_interval\<close>.
\<close>

theorem target_fps_overrides_interval:
  assumes "video_capture E v = Some cap"
  shows "(fl_less (Fin 0) t \<and> fl_less t (cap_fps cap) \<longrightarrow>
            (\<exists>r. fl_div (fl_round E) (cap_fps cap) t = Inr r) \<and>
            (\<forall>r n. fl_div (fl_round E) (cap_fps cap) t = Inr r \<and> py_int r = Inr n \<longrightarrow>
                 extract_frames E v d k (Some t) m q =
                   extract_frames E v d (max 1 n) None m q) \<and>
            (\<forall>r e. fl_div (fl_round E) (cap_fps cap) t = Inr r \<and> py_int r = Inl e \<and>
                   path_exists E v \<and> dir_ready E d \<longrightarrow>
                 returned (extract_frames E v d k (Some t) m q) = Inl e \<and>
                 written (extract_frames E v d k (Some t) m q) = [])) \<and>
         (\<forall>a b x. t = Fin a \<and> cap_fps cap = Fin b \<and> 0 < a \<and> a < b \<and>
                  fl_round E (b / a) = Fin x \<longrightarrow>
              extract_frames E v d k (Some t) m q =
                extract_frames E v d (max 1 \<lfloor>x\<rfloor>) None m q) \<and>
         (fl_le (cap_fps cap) t \<longrightarrow>
            extract_frames E v d k (Some t) m q = extract_frames E v d k None m q) \<and>
         (path_exists E v \<and> dir_ready E d \<and> cap_fps cap \<noteq> Fin 0 \<and> k \<noteq> 0 \<longrightarrow>
            map w_frame (written (extract_frames E v d k None None q)) =
              at_multiples k (cap_frames cap))"
proof -
  let ?fps = "cap_fps cap"
  let ?rnd = "fl_round E"
  have call: "\<And>n. 0 < n \<Longrightarrow> effective_interval ?rnd ?fps (Some t) k = Inr n \<Longrightarrow>
      extract_frames E v d k (Some t) m q = extract_frames E v d n None m q"
  proof -
    fix n :: int
    assume "effective_interval ?rnd ?fps (Some t) k = Inr n"
    then have "effective_interval ?rnd ?fps (Some t) k = effective_interval ?rnd ?fps None n"
      by (simp add: effective_interval_unset)
    then show "extract_frames E v d k (Some t) m q = extract_frames E v d n None m q"
      by (rule extract_frames_same_interval[OF assms])
  qed
  have a: "fl_less (Fin 0) t \<and> fl_less t ?fps \<longrightarrow>
            (\<exists>r. fl_div ?rnd ?fps t = Inr r) \<and>
            (\<forall>r n. fl_div ?rnd ?fps t = Inr r \<and> py_int r = Inr n \<longrightarrow>
                 extract_frames E v d k (Some t) m q =
                   extract_frames E v d (max 1 n) None m q) \<and>
            (\<forall>r e. fl_div ?rnd ?fps t = Inr r \<and> py_int r = Inl e \<and>
                   path_exists E v \<and> dir_ready E d \<longrightarrow>
                 returned (extract_frames E v d k (Some t) m q) = Inl e \<and>
                 written (extract_frames E v d k (Some t) m q) = [])"
  proof
    assume h: "fl_less (Fin 0) t \<and> fl_less t ?fps"
    then have pos: "fl_less (Fin 0) t" and below: "fl_less t ?fps" by simp_all
    have nz: "t \<noteq> Fin 0" "?fps \<noteq> Fin 0"
      using fl_between_not_zero[OF pos below] by simp_all
    have dv: "fl_div ?rnd ?fps t = Inr (fl_quot ?rnd ?fps t)"
      using nz(1) by (simp add: fl_div_def)
    have eff: "effective_interval ?rnd ?fps (Some t) k =
           (case py_int (fl_quot ?rnd ?fps t) of Inl e \<Rightarrow> Inl e | Inr n \<Rightarrow> Inr (max 1 n))"
      by (rule effective_interval_target[OF pos below])
    have a1: "\<exists>r. fl_div ?rnd ?fps t = Inr r"
      using dv by blast
    have a2: "\<forall>r n. fl_div ?rnd ?fps t = Inr r \<and> py_int r = Inr n \<longrightarrow>
                 extract_frames E v d k (Some t) m q =
                   extract_frames E v d (max 1 n) None m q"
    proof (intro allI impI)
      fix r n assume "fl_div ?rnd ?fps t = Inr r \<and> py_int r = Inr n"
      with dv have "py_int (fl_quot ?rnd ?fps t) = Inr n" by simp
      with eff have "effective_interval ?rnd ?fps (Some t) k = Inr (max 1 n)" by simp
      moreover have "0 < max 1 n" by simp
      ultimately show "extract_frames E v d k (Some t) m q =
                   extract_frames E v d (max 1 n) None m q"
        using call by blast
    qed
    have a3: "\<forall>r e. fl_div ?rnd ?fps t = Inr r \<and> py_int r = Inl e \<and>
                   path_exists E v \<and> dir_ready E d \<longrightarrow>
                 returned (extract_frames E v d k (Some t) m q) = Inl e \<and>
                 written (extract_frames E v d k (Some t) m q) = []"
    proof (intro allI impI)
      fix r e assume g: "fl_div ?rnd ?fps t = Inr r \<and> py_int r = Inl e \<and>
                   path_exists E v \<and> dir_ready E d"
      with dv have "py_int (fl_quot ?rnd ?fps t) = Inl e" by simp
      with eff have ei: "effective_interval ?rnd ?fps (Some t) k = Inl e" by simp
      from g have ex: "path_exists E v" and dr: "dir_ready E d" by simp_all
      show "returned (extract_frames E v d k (Some t) m q) = Inl e \<and>
                 written (extract_frames E v d k (Some t) m q) = []"
        unfolding extract_frames_opened[OF ex assms dr]
        using extract_opened_interval_raises[OF nz(2) ei] extract_opened_interval_error(2)[OF ei]
        by simp
    qed
    from a1 a2 a3 show "(\<exists>r. fl_div ?rnd ?fps t = Inr r) \<and>
            (\<forall>r n. fl_div ?rnd ?fps t = Inr r \<and> py_int r = Inr n \<longrightarrow>
                 extract_frames E v d k (Some t) m q =
                   extract_frames E v d (max 1 n) None m q) \<and>
            (\<forall>r e. fl_div ?rnd ?fps t = Inr r \<and> py_int r = Inl e \<and>
                   path_exists E v \<and> dir_ready E d \<longrightarrow>
                 returned (extract_frames E v d k (Some t) m q) = Inl e \<and>
                 written (extract_frames E v d k (Some t) m q) = [])"
      by blast
  qed
  have b: "\<forall>a b x. t = Fin a \<and> ?fps = Fin b \<and> 0 < a \<and> a < b \<and> ?rnd (b / a) = Fin x \<longrightarrow>
              extract_frames E v d k (Some t) m q =
                extract_frames E v d (max 1 \<lfloor>x\<rfloor>) None m q"
  proof (intro allI impI)
    fix a b x
    assume g: "t = Fin a \<and> ?fps = Fin b \<and> 0 < a \<and> a < b \<and> ?rnd (b / a) = Fin x"
    then have pos: "fl_less (Fin 0) t" and below: "fl_less t ?fps" by simp_all
    from g have "fl_quot ?rnd ?fps t = Fin x" by simp
    then have "effective_interval ?rnd ?fps (Some t) k =
        Inr (max 1 (if 0 \<le> x then \<lfloor>x\<rfloor> else \<lceil>x\<rceil>))"
      using effective_interval_target[OF pos below, of ?rnd k] by simp
    then have "effective_interval ?rnd ?fps (Some t) k = Inr (max 1 \<lfloor>x\<rfloor>)"
      by (simp only: max_one_truncate)
    moreover have "0 < max 1 \<lfloor>x\<rfloor>" by simp
    ultimately show "extract_frames E v d k (Some t) m q =
                extract_frames E v d (max 1 \<lfloor>x\<rfloor>) None m q"
      using call by blast
  qed
  have c: "fl_le ?fps t \<longrightarrow>
            extract_frames E v d k (Some t) m q = extract_frames E v d k None m q"
  proof
    assume "fl_le ?fps t"
    then have "\<not> fl_less t ?fps" by (rule fl_le_not_less)
    then have "effective_interval ?rnd ?fps (Some t) k = effective_interval ?rnd ?fps None k"
      by (simp add: effective_interval_def)
    then show "extract_frames E v d k (Some t) m q = extract_frames E v d k None m q"
      by (rule extract_frames_same_interval[OF assms])
  qed
  have e: "path_exists E v \<and> dir_ready E d \<and> ?fps \<noteq> Fin 0 \<and> k \<noteq> 0 \<longrightarrow>
            map w_frame (written (extract_frames E v d k None None q)) =
              at_multiples k (cap_frames cap)"
  proof
    assume g: "path_exists E v \<and> dir_ready E d \<and> ?fps \<noteq> Fin 0 \<and> k \<noteq> 0"
    then have ex: "path_exists E v" and dr: "dir_ready E d" and fz: "?fps \<noteq> Fin 0"
      and kz: "k \<noteq> 0"
      by simp_all
    have "written (extract_frames E v d k None None q) =
            numbered_writes d (fst (check_quality q)) 0
              (capped None 0 (selected k 0 (cap_frames cap)))"
      by (rule extract_frames_run(2)[OF ex assms fz effective_interval_unset kz dr])
    then show "map w_frame (written (extract_frames E v d k None None q)) =
              at_multiples k (cap_frames cap)"
      by (simp add: frames_numbered_writes selected_at_multiples)
  qed
  from a b c e show ?thesis by blast
qed

theorem target_fps_overrides_interval_witness:
  "video_capture (sample_env (sample_capture 7 (Fin 30) 7)) ''v.avi'' = Some (sample_capture 7 (Fin 30) 7) \<and>
   fl_less (Fin 0) (Fin 10) \<and> fl_less (Fin 10) (cap_fps (sample_capture 7 (Fin 30) 7)) \<and>
   fl_div (fl_round (sample_env (sample_capture 7 (Fin 30) 7))) (cap_fps (sample_capture 7 (Fin 30) 7)) (Fin 10) = Inr (Fin 3) \<and>
   py_int (Fin 3) = Inr 3 \<and>
   extract_frames (sample_env (sample_capture 7 (Fin 30) 7)) ''v.avi'' ''out'' 1 (Some (Fin 10)) None 95 =
     extract_frames (sample_env (sample_capture 7 (Fin 30) 7)) ''v.avi'' ''out'' 3 None None 95 \<and>
   map w_frame (written (extract_frames (sample_env (sample_capture 7 (Fin 30) 7)) ''v.avi'' ''out'' 1 (Some (Fin 10)) None 95))
     = [0, 3, 6] \<and>
   fl_le (cap_fps (sample_capture 7 (Fin 30) 7)) (Fin 60) \<and>
   extract_frames (sample_env (sample_capture 7 (Fin 30) 7)) ''v.avi'' ''out'' 2 (Some (Fin 60)) None 95 =
     extract_frames (sample_env (sample_capture 7 (Fin 30) 7)) ''v.avi'' ''out'' 2 None None 95 \<and>
   path_exists (sample_env (sample_capture 7 (Fin 30) 7)) ''v.avi'' \<and>
   dir_ready (sample_env (sample_capture 7 (Fin 30) 7)) ''out'' \<and>
   map w_frame (written (extract_frames (sample_env (sample_capture 7 (Fin 30) 7)) ''v.avi'' ''out'' 2 None None 95))
     = [0, 2, 4, 6] \<and>
   video_capture (sample_env (sample_capture 7 PInf 7)) ''v.avi'' = Some (sample_capture 7 PInf 7) \<and>
   fl_less (Fin 10) (cap_fps (sample_capture 7 PInf 7)) \<and>
   fl_div (fl_round (sample_env (sample_capture 7 PInf 7))) (cap_fps (sample_capture 7 PInf 7)) (Fin 10) = Inr PInf \<and>
   py_int PInf = Inl OverflowError \<and>
   returned (extract_frames (sample_env (sample_capture 7 PInf 7)) ''v.avi'' ''out'' 1 (Some (Fin 10)) None 95)
     = Inl OverflowError"
proof -
  let ?c = "sample_capture 7 (Fin 30) 7"
  let ?E = "sample_env ?c"
  let ?c' = "sample_capture 7 PInf 7"
  let ?E' = "sample_env ?c'"
  have h1: "video_capture ?E ''v.avi'' = Some ?c"
    by (simp add: sample_env_def)
  have h2: "fl_less (Fin 0) (Fin 10) \<and> fl_less (Fin 10) (cap_fps ?c)"
    by (simp add: sample_capture_def)
  have h3: "fl_div (fl_round ?E) (cap_fps ?c) (Fin 10) = Inr (Fin 3) \<and> py_int (Fin 3) = Inr 3"
    by (simp add: sample_env_def sample_capture_def fl_div_def)
  have h4: "fl_le (cap_fps ?c) (Fin 60)"
    by (simp add: sample_capture_def)
  have h5: "path_exists ?E ''v.avi'' \<and> dir_ready ?E ''out'' \<and> cap_fps ?c \<noteq> Fin 0 \<and> (2::int) \<noteq> 0"
    by (simp add: sample_env_def sample_capture_def path_exists_def dir_ready_def os_makedirs_def)
  have h6: "video_capture ?E' ''v.avi'' = Some ?c'"
    by (simp add: sample_env_def)
  have h7: "fl_less (Fin 0) (Fin 10) \<and> fl_less (Fin 10) (cap_fps ?c')"
    by (simp add: sample_capture_def)
  have h8: "fl_div (fl_round ?E') (cap_fps ?c') (Fin 10) = Inr PInf \<and> py_int PInf = Inl OverflowError"
    by (simp add: sample_env_def sample_capture_def fl_div_def)
  have h9: "path_exists ?E' ''v.avi'' \<and> dir_ready ?E' ''out''"
    by (simp add: sample_env_def path_exists_def dir_ready_def os_makedirs_def)
  have s2: "at_multiples 2 (cap_frames ?c) = [0, 2, 4, 6]"
    by code_simp
  have w3: "map w_frame (written (extract_frames ?E ''v.avi'' ''out'' 3 None None 95)) = [0, 3, 6]"
    by code_simp
  note T = target_fps_overrides_interval[OF h1]
  from T[of "Fin 10" "''out''" 1 None 95] h2 h3
  have a: "extract_frames ?E ''v.avi'' ''out'' 1 (Some (Fin 10)) None 95 =
     extract_frames ?E ''v.avi'' ''out'' (max 1 3) None None 95"
    by blast
  then have a': "extract_frames ?E ''v.avi'' ''out'' 1 (Some (Fin 10)) None 95 =
     extract_frames ?E ''v.avi'' ''out'' 3 None None 95"
    by simp
  from T[of "Fin 60" "''out''" 2 None 95] h4
  have b: "extract_frames ?E ''v.avi'' ''out'' 2 (Some (Fin 60)) None 95 =
     extract_frames ?E ''v.avi'' ''out'' 2 None None 95"
    by blast
  from T[of "Fin 60" "''out''" 2 None 95] h5
  have "map w_frame (written (extract_frames ?E ''v.avi'' ''out'' 2 None None 95)) =
      at_multiples 2 (cap_frames ?c)"
    by blast
  with s2 have c: "map w_frame (written (extract_frames ?E ''v.avi'' ''out'' 2 None None 95)) = [0, 2, 4, 6]"
    by simp
  from w3 a' have d: "map w_frame (written (extract_frames ?E ''v.avi'' ''out'' 1 (Some (Fin 10)) None 95))
     = [0, 3, 6]"
    by simp
  from target_fps_overrides_interval[OF h6, of "Fin 10" "''out''" 1 None 95] h7 h8 h9
  have e: "returned (extract_frames ?E' ''v.avi'' ''out'' 1 (Some (Fin 10)) None 95) = Inl OverflowError"
    by blast
  from h1 h2 h3 h4 h5 h6 h7 h8 a' b c d e show ?thesis by blast
qed

text \<open>
  Claim C8, amended. For \<open>frame_interval = 0\<close>, a video file that exists and opens, an
  output directory that exists or can be created, and a \<open>target_fps\<close> that does not
  replace the interval (unset, zero, or not below the original frame rate),
  \<open>extract_frames\<close> returns no boolean: it raises \<open>ZeroDivisionError\<close>, and no frame is
  written. Nothing checks \<open>frame_interval\<close> beforehand.
\<close>

theorem zero_interval_raises:
  assumes "path_exists E v" and "video_capture E v = Some cap" and "dir_ready E d"
      and "case t of None \<Rightarrow> True | Some x \<Rightarrow> \<not> (fl_truthy x \<and> fl_less x (cap_fps cap))"
  shows "returned (extract_frames E v d 0 t m q) = Inl ZeroDivisionError \<and>
         written (extract_frames E v d 0 t m q) = []"
proof -
  have eff: "effective_interval (fl_round E) (cap_fps cap) t 0 = Inr 0"
    using assms(4) by (cases t) (auto simp: effective_interval_def)
  show ?thesis
  proof (cases "cap_fps cap = Fin 0")
    case True
    then show ?thesis
      unfolding extract_frames_opened[OF assms(1,2,3)] by (simp add: extract_opened_fps_zero)
  next
    case False
    show ?thesis
      unfolding extract_frames_opened[OF assms(1,2,3)]
      using eff by (simp add: extract_opened_interval_zero)
  qed
qed

theorem zero_interval_raises_witness:
  "path_exists (sample_env (sample_capture 5 (Fin 30) 5)) ''v.avi'' \<and>
   video_capture (sample_env (sample_capture 5 (Fin 30) 5)) ''v.avi'' = Some (sample_capture 5 (Fin 30) 5) \<and>
   dir_ready (sample_env (sample_capture 5 (Fin 30) 5)) ''out'' \<and>
   \<not> (fl_truthy (Fin 60) \<and> fl_less (Fin 60) (cap_fps (sample_capture 5 (Fin 30) 5))) \<and>
   returned (extract_frames (sample_env (sample_capture 5 (Fin 30) 5)) ''v.avi'' ''out'' 0 (Some (Fin 60)) None 95)
     = Inl ZeroDivisionError \<and>
   written (extract_frames (sample_env (sample_capture 5 (Fin 30) 5)) ''v.avi'' ''out'' 0 (Some (Fin 60)) None 95) = []"
proof -
  have h1: "path_exists (sample_env (sample_capture 5 (Fin 30) 5)) ''v.avi''"
    by (simp add: sample_env_def path_exists_def)
  have h2: "video_capture (sample_env (sample_capture 5 (Fin 30) 5)) ''v.avi'' = Some (sample_capture 5 (Fin 30) 5)"
    by (simp add: sample_env_def)
  have h3: "dir_ready (sample_env (sample_capture 5 (Fin 30) 5)) ''out''"
    by (simp add: sample_env_def dir_ready_def os_makedirs_def)
  have h4: "\<not> (fl_truthy (Fin 60) \<and> fl_less (Fin 60) (cap_fps (sample_capture 5 (Fin 30) 5)))"
    by (simp add: sample_capture_def)
  then have h4': "case Some (Fin 60) of None \<Rightarrow> True
      | Some x \<Rightarrow> \<not> (fl_truthy x \<and> fl_less x (cap_fps (sample_capture 5 (Fin 30) 5)))"
    by simp
  from zero_interval_raises[OF h1 h2 h3 h4', of None 95] h1 h2 h3 h4
  show ?thesis by blast
qed

text \<open>
  Claim C8 as stated fails when a target frame rate replaces the interval: with
  \<open>frame_interval = 0\<close>, \<open>target_fps = 10\<close> and a video of 30 frames per second, the
  interval becomes 3 and the call returns \<open>True\<close>.
\<close>

theorem zero_interval_counterexample:
  "path_exists (sample_env (sample_capture 5 (Fin 30) 5)) ''v.avi'' \<and>
   video_capture (sample_env (sample_capture 5 (Fin 30) 5)) ''v.avi'' \<noteq> None \<and>
   returned (extract_frames (sample_env (sample_capture 5 (Fin 30) 5)) ''v.avi'' ''out'' 0 (Some (Fin 10)) None 95)
     = Inr True"
  by code_simp

text \<open>
  Claim C9. A limit \<open>max_frames = 0\<close> is treated as no limit: the call does exactly what
  it does with \<open>max_frames = None\<close> (same return value, same printed lines, same
  directories, same files), and on a run that reaches the loop (the video file exists and
  opens, the output directory exists or is created, the frame rate is not zero and the
  interval in effect is not zero) every frame that the interval selects is saved, not
  zero frames.
\<close>

theorem max_frames_zero_is_no_limit:
  "extract_frames E v d k t (Some 0) q = extract_frames E v d k t None q \<and>
   (path_exists E v \<and> video_capture E v = Some cap \<and> dir_ready E d \<and>
    cap_fps cap \<noteq> Fin 0 \<and>
    effective_interval (fl_round E) (cap_fps cap) t k = Inr k' \<and> k' \<noteq> 0 \<longrightarrow>
      map w_frame (written (extract_frames E v d k t (Some 0) q)) =
        at_multiples k' (cap_frames cap))"
proof
  show "extract_frames E v d k t (Some 0) q = extract_frames E v d k t None q"
    unfolding extract_frames_def extract_in_dir_def extract_opened_zero_cap by (rule refl)
next
  show "path_exists E v \<and> video_capture E v = Some cap \<and> dir_ready E d \<and>
    cap_fps cap \<noteq> Fin 0 \<and>
    effective_interval (fl_round E) (cap_fps cap) t k = Inr k' \<and> k' \<noteq> 0 \<longrightarrow>
      map w_frame (written (extract_frames E v d k t (Some 0) q)) =
        at_multiples k' (cap_frames cap)"
    by (auto simp: extract_frames_run(2) frames_numbered_writes selected_at_multiples)
qed

theorem max_frames_zero_is_no_limit_witness:
  "path_exists (sample_env (sample_capture 5 (Fin 30) 5)) ''v.avi'' \<and>
   video_capture (sample_env (sample_capture 5 (Fin 30) 5)) ''v.avi'' = Some (sample_capture 5 (Fin 30) 5) \<and>
   dir_ready (sample_env (sample_capture 5 (Fin 30) 5)) ''out'' \<and>
   cap_fps (sample_capture 5 (Fin 30) 5) \<noteq> Fin 0 \<and>
   effective_interval (fl_round (sample_env (sample_capture 5 (Fin 30) 5)))
      (cap_fps (sample_capture 5 (Fin 30) 5)) None 2 = Inr 2 \<and> (2::int) \<noteq> 0 \<and>
   map w_frame (written (extract_frames (sample_env (sample_capture 5 (Fin 30) 5))
        ''v.avi'' ''out'' 2 None (Some 0) 95)) = [0, 2, 4]"
proof -
  have h: "path_exists (sample_env (sample_capture 5 (Fin 30) 5)) ''v.avi'' \<and>
   video_capture (sample_env (sample_capture 5 (Fin 30) 5)) ''v.avi'' = Some (sample_capture 5 (Fin 30) 5) \<and>
   dir_ready (sample_env (sample_capture 5 (Fin 30) 5)) ''out'' \<and>
   cap_fps (sample_capture 5 (Fin 30) 5) \<noteq> Fin 0 \<and>
   effective_interval (fl_round (sample_env (sample_capture 5 (Fin 30) 5)))
      (cap_fps (sample_capture 5 (Fin 30) 5)) None 2 = Inr 2 \<and> (2::int) \<noteq> 0"
    by (simp add: sample_env_def sample_capture_def effective_interval_def path_exists_def
          dir_ready_def os_makedirs_def)
  have s: "at_multiples 2 (cap_frames (sample_capture 5 (Fin 30) 5)) = [0, 2, 4]"
    by code_simp
  from max_frames_zero_is_no_limit[of "sample_env (sample_capture 5 (Fin 30) 5)" "''v.avi''"
        "''out''" 2 None 95 "sample_capture 5 (Fin 30) 5" 2, THEN conjunct2] h s
  show ?thesis by simp
qed

text \<open>
  Claim C10. On a video that opens, \<open>extract_by_time_intervals(video, dir,
  interval_seconds, jpg_quality)\<close> is the call \<open>extract_frames(video, dir,
  max(1, int(original_fps * interval_seconds)), jpg_quality=jpg_quality)\<close> with no
  \<open>target_fps\<close> and no \<open>max_frames\<close>: same return value, same printed lines, same
  directories and same files. When \<open>int(original_fps * interval_seconds)\<close> raises, the
  call raises that exception and writes nothing.
\<close>

theorem time_intervals_as_extract_frames:
  assumes "video_capture E v = Some cap"
  shows "(\<forall>n. py_int (fl_mul (fl_round E) (cap_fps cap) secs) = Inr n \<longrightarrow>
            extract_by_time_intervals E v d secs q =
              extract_frames E v d (max 1 n) None None q) \<and>
         (\<forall>e. py_int (fl_mul (fl_round E) (cap_fps cap) secs) = Inl e \<longrightarrow>
            returned (extract_by_time_intervals E v d secs q) = Inl e \<and>
            written (extract_by_time_intervals E v d secs q) = [])"
  using assms by (simp add: extract_by_time_intervals_def)

theorem time_intervals_as_extract_frames_witness:
  "video_capture (sample_env (sample_capture 5 (Fin 2) 5)) ''v.avi'' = Some (sample_capture 5 (Fin 2) 5) \<and>
   py_int (fl_mul (fl_round (sample_env (sample_capture 5 (Fin 2) 5))) (cap_fps (sample_capture 5 (Fin 2) 5)) (Fin 1)) = Inr 2 \<and>
   extract_by_time_intervals (sample_env (sample_capture 5 (Fin 2) 5)) ''v.avi'' ''out'' (Fin 1) 50 =
     extract_frames (sample_env (sample_capture 5 (Fin 2) 5)) ''v.avi'' ''out'' 2 None None 50 \<and>
   video_capture (sample_env (sample_capture 5 PInf 5)) ''v.avi'' = Some (sample_capture 5 PInf 5) \<and>
   py_int (fl_mul (fl_round (sample_env (sample_capture 5 PInf 5))) (cap_fps (sample_capture 5 PInf 5)) (Fin 1)) = Inl OverflowError \<and>
   returned (extract_by_time_intervals (sample_env (sample_capture 5 PInf 5)) ''v.avi'' ''out'' (Fin 1) 50) = Inl OverflowError"
proof -
  have h1: "video_capture (sample_env (sample_capture 5 (Fin 2) 5)) ''v.avi'' = Some (sample_capture 5 (Fin 2) 5)"
    by (simp add: sample_env_def)
  have h2: "py_int (fl_mul (fl_round (sample_env (sample_capture 5 (Fin 2) 5))) (cap_fps (sample_capture 5 (Fin 2) 5)) (Fin 1)) = Inr 2"
    by (simp add: sample_env_def sample_capture_def)
  have h3: "video_capture (sample_env (sample_capture 5 PInf 5)) ''v.avi'' = Some (sample_capture 5 PInf 5)"
    by (simp add: sample_env_def)
  have h4: "py_int (fl_mul (fl_round (sample_env (sample_capture 5 PInf 5))) (cap_fps (sample_capture 5 PInf 5)) (Fin 1)) = Inl OverflowError"
    by (simp add: sample_env_def sample_capture_def)
  from time_intervals_as_extract_frames[OF h1, of "Fin 1" "''out''" 50] h2
  have a: "extract_by_time_intervals (sample_env (sample_capture 5 (Fin 2) 5)) ''v.avi'' ''out'' (Fin 1) 50 =
     extract_frames (sample_env (sample_capture 5 (Fin 2) 5)) ''v.avi'' ''out'' (max 1 2) None None 50"
    by blast
  from time_intervals_as_extract_frames[OF h3, of "Fin 1" "''out''" 50] h4
  have b: "returned (extract_by_time_intervals (sample_env (sample_capture 5 PInf 5)) ''v.avi'' ''out'' (Fin 1) 50) = Inl OverflowError"
    by blast
  from a have a': "extract_by_time_intervals (sample_env (sample_capture 5 (Fin 2) 5)) ''v.avi'' ''out'' (Fin 1) 50 =
     extract_frames (sample_env (sample_capture 5 (Fin 2) 5)) ''v.avi'' ''out'' 2 None None 50"
    by simp
  from h1 h2 h3 h4 a' b show ?thesis by blast
qed

end
